theory Spec2Isabelle
  imports Main "HOL-Library.Multiset" "HOL-Library.AList" "HOL-Library.Sublist"
begin

section \<open>Data model\<close>

text \<open>
  A parsed specification is a Go value of type \<^verbatim>\<open>map[string]interface{}\<close>. The dynamic
  values that the YAML decoder stores in it are modelled by \<open>jv\<close>. A Go map is an
  association list: \<open>map_of\<close> is the lookup \<^verbatim>\<open>m[k]\<close>, and the order of the list is the
  order in which one \<^verbatim>\<open>range\<close> statement visits the entries. Go leaves that order
  unspecified, so no property may rely on a particular order unless it says so.
  \<open>JOther\<close> stands for every dynamic type the rules never look into (floating point
  numbers, maps whose keys are not strings, ...).
\<close>

datatype jv =
    JNull
  | JBool bool
  | JInt int
  | JStr string
  | JArr "jv list"
  | JMap "(string \<times> jv) list"
  | JOther

type_synonym gomap = "(string \<times> jv) list"

text \<open>The comma-ok type assertion \<^verbatim>\<open>v.(map[string]interface{})\<close>.\<close>

fun asMap :: "jv \<Rightarrow> gomap option" where
  "asMap (JMap m) = Some m"
| "asMap _ = None"

text \<open>The comma-ok type assertion \<^verbatim>\<open>v.(string)\<close>.\<close>

fun asString :: "jv \<Rightarrow> string option" where
  "asString (JStr s) = Some s"
| "asString _ = None"

text \<open>
  \<^verbatim>\<open>m[k].(map[string]interface{})\<close> and \<^verbatim>\<open>m[k].(string)\<close>: a missing key yields the nil
  interface value, on which every type assertion fails.
\<close>

definition lookupMap :: "gomap \<Rightarrow> string \<Rightarrow> gomap option" where
  "lookupMap m k = (case map_of m k of None \<Rightarrow> None | Some v \<Rightarrow> asMap v)"

definition lookupString :: "gomap \<Rightarrow> string \<Rightarrow> string option" where
  "lookupString m k = (case map_of m k of None \<Rightarrow> None | Some v \<Rightarrow> asString v)"

text \<open>
  An issue is a \<^verbatim>\<open>map[string]interface{}\<close> whose values are all strings; it is kept as the
  list of its entries in the order of the source's map literal. A rule's result is a map
  with the key \<^verbatim>\<open>status\<close> and, optionally, the keys \<^verbatim>\<open>message\<close> and \<^verbatim>\<open>issues\<close>.
\<close>

type_synonym issue = "(string \<times> string) list"

record result =
  status :: string
  message :: "string option"
  issues :: "issue list option"

text \<open>
  A Go function with the signature \<^verbatim>\<open>(map[string]interface{}, error)\<close> either panics
  (\<open>None\<close>), returns a non-nil error (\<open>Some (Inl e)\<close>) or returns its value with a nil
  error (\<open>Some (Inr v)\<close>). The specification handed to a rule may be the nil map
  (\<open>None\<close>), which is what the YAML decoder leaves for an empty document.
\<close>

type_synonym spec = "gomap option"

type_synonym 'e apply_outcome = "('e + result) option"

record Rule =
  Apply :: "spec \<Rightarrow> string apply_outcome"
  Name :: string
  Description :: string

section \<open>The string functions of Go's standard library\<close>

text \<open>Go strings are byte strings; a \<open>char\<close> is one byte.\<close>

fun HasPrefix :: "string \<Rightarrow> string \<Rightarrow> bool" where
  "HasPrefix s [] = True"
| "HasPrefix [] (p # ps) = False"
| "HasPrefix (c # cs) (p # ps) = (c = p \<and> HasPrefix cs ps)"

definition HasSuffix :: "string \<Rightarrow> string \<Rightarrow> bool" where
  "HasSuffix s suf = HasPrefix (rev s) (rev suf)"

fun Contains :: "string \<Rightarrow> string \<Rightarrow> bool" where
  "Contains [] sub = (sub = [])"
| "Contains (c # cs) sub = (HasPrefix (c # cs) sub \<or> Contains cs sub)"

text \<open>\<^verbatim>\<open>strings.Split(s, sep)\<close> for a separator of one byte: \<open>n\<close> separators give \<open>n + 1\<close> pieces.\<close>

fun Split :: "string \<Rightarrow> char \<Rightarrow> string list" where
  "Split [] sep = [[]]"
| "Split (c # cs) sep =
     (if c = sep then [] # Split cs sep
      else (case Split cs sep of [] \<Rightarrow> [[c]] | s # ss \<Rightarrow> (c # s) # ss))"

fun Join :: "string list \<Rightarrow> char \<Rightarrow> string" where
  "Join [] sep = []"
| "Join [s] sep = s"
| "Join (s # t # ss) sep = s @ sep # Join (t # ss) sep"

text \<open>
  \<^verbatim>\<open>strings.ToLower\<close> and \<^verbatim>\<open>strings.ToUpper\<close> on ASCII letters; every other byte is kept.
  (Go also maps letters outside ASCII; no method name the rules compare with has one.)
\<close>

definition lowerChar :: "char \<Rightarrow> char" where
  "lowerChar c =
     (case map_of (zip ''ABCDEFGHIJKLMNOPQRSTUVWXYZ'' ''abcdefghijklmnopqrstuvwxyz'') c of
        None \<Rightarrow> c | Some d \<Rightarrow> d)"

definition upperChar :: "char \<Rightarrow> char" where
  "upperChar c =
     (case map_of (zip ''abcdefghijklmnopqrstuvwxyz'' ''ABCDEFGHIJKLMNOPQRSTUVWXYZ'') c of
        None \<Rightarrow> c | Some d \<Rightarrow> d)"

definition ToLower :: "string \<Rightarrow> string" where
  "ToLower s = map lowerChar s"

definition ToUpper :: "string \<Rightarrow> string" where
  "ToUpper s = map upperChar s"

section \<open>Structural rules\<close>

subsection \<open>Method-path consistency\<close>

definition invalidSpec :: result where
  "invalidSpec = \<lparr>status = ''error'', message = Some ''invalid API spec'', issues = None\<rparr>"

definition noPaths :: result where
  "noPaths = \<lparr>status = ''error'', message = Some ''API spec does not have paths'', issues = None\<rparr>"

text \<open>The tail of every \<^verbatim>\<open>Apply\<close>: failed with the issues when there are any, else passed.\<close>

definition setResults :: "issue list \<Rightarrow> result" where
  "setResults acc =
     (if length acc > 0 then \<lparr>status = ''failed'', message = None, issues = Some acc\<rparr>
      else \<lparr>status = ''passed'', message = None, issues = None\<rparr>)"

definition checkMethodPathConsistency :: "string \<Rightarrow> string \<Rightarrow> gomap \<Rightarrow> issue option" where
  "checkMethodPathConsistency path method0 methodDef =
     (let method = ToLower method0;
          endsWithID = (Contains path ''/{'' \<and> HasSuffix path ''}'')
      in if method = ''get'' then None
         else if method = ''post'' then
           (if endsWithID then
              Some [(''path'', path), (''method'', method),
                    (''message'', ''POST should be used for collection paths, not for specific resources'')]
            else None)
         else if method = ''put'' \<or> method = ''patch'' \<or> method = ''delete'' then
           (if \<not> endsWithID then
              Some [(''path'', path), (''method'', method),
                    (''message'', ToUpper method @ '' should be used for specific resources, not for collections'')]
            else None)
         else None)"

text \<open>The inner loop of \<^verbatim>\<open>SolaceRestRules.Apply\<close> over the entries of one path item.\<close>

fun checkMethods :: "string \<Rightarrow> gomap \<Rightarrow> issue list \<Rightarrow> issue list" where
  "checkMethods path [] acc = acc"
| "checkMethods path ((method, methodObj) # rest) acc =
     (if method = ''parameters'' \<or> method = ''summary'' \<or> method = ''description''
      then checkMethods path rest acc
      else (case asMap methodObj of
              None \<Rightarrow> checkMethods path rest acc
            | Some methodDef \<Rightarrow>
                (case checkMethodPathConsistency path method methodDef of
                   None \<Rightarrow> checkMethods path rest acc
                 | Some issue \<Rightarrow> checkMethods path rest (acc @ [issue]))))"

text \<open>The outer loop over the entries of \<^verbatim>\<open>paths\<close>.\<close>

fun checkPaths :: "gomap \<Rightarrow> issue list \<Rightarrow> issue list" where
  "checkPaths [] acc = acc"
| "checkPaths ((path, pathObj) # rest) acc =
     (case asMap pathObj of
        None \<Rightarrow> checkPaths rest acc
      | Some pathItem \<Rightarrow> checkPaths rest (checkMethods path pathItem acc))"

definition SolaceRestRules_Apply :: "spec \<Rightarrow> string apply_outcome" where
  "SolaceRestRules_Apply sp =
     (case sp of
        None \<Rightarrow> Some (Inr invalidSpec)
      | Some s \<Rightarrow>
          (case lookupMap s ''paths'' of
             None \<Rightarrow> Some (Inr noPaths)
           | Some paths \<Rightarrow> Some (Inr (setResults (checkPaths paths [])))))"

definition SolaceRestRules :: Rule where
  "SolaceRestRules =
     \<lparr>Apply = SolaceRestRules_Apply, Name = ''solace_rest_rules'',
      Description = ''Validates that the API follows Solace REST API conventions''\<rparr>"

subsection \<open>Singular user resources\<close>

fun checkUserPaths :: "gomap \<Rightarrow> issue list \<Rightarrow> issue list" where
  "checkUserPaths [] acc = acc"
| "checkUserPaths ((path, pathObj) # rest) acc =
     (if Contains path ''/users/'' \<and> \<not> Contains path ''/me/''
      then checkUserPaths rest
             (acc @ [[(''path'', path),
                      (''message'', ''User-specific resources should use /me/ instead of /users/{id}'')]])
      else checkUserPaths rest acc)"

definition SolaceSingularUserResourcesRule_Apply :: "spec \<Rightarrow> string apply_outcome" where
  "SolaceSingularUserResourcesRule_Apply sp =
     (case sp of
        None \<Rightarrow> Some (Inr invalidSpec)
      | Some s \<Rightarrow>
          (case lookupMap s ''paths'' of
             None \<Rightarrow> Some (Inr noPaths)
           | Some paths \<Rightarrow> Some (Inr (setResults (checkUserPaths paths [])))))"

definition SolaceSingularUserResourcesRule :: Rule where
  "SolaceSingularUserResourcesRule =
     \<lparr>Apply = SolaceSingularUserResourcesRule_Apply, Name = ''solace_singular_user_resources'',
      Description = ''Validates that user-specific resources use /me/ instead of /users/{id}''\<rparr>"

subsection \<open>Custom actions\<close>

fun checkActionPaths :: "gomap \<Rightarrow> issue list \<Rightarrow> issue list" where
  "checkActionPaths [] acc = acc"
| "checkActionPaths ((path, pathObj) # rest) acc =
     (case asMap pathObj of
        None \<Rightarrow> checkActionPaths rest acc
      | Some pathItem \<Rightarrow>
          (if Contains path ''/actions/'' then
             (if map_of pathItem ''post'' = None
              then checkActionPaths rest
                     (acc @ [[(''path'', path), (''message'', ''Custom actions should use POST method'')]])
              else checkActionPaths rest acc)
           else checkActionPaths rest acc))"

definition SolaceCustomActionsRule_Apply :: "spec \<Rightarrow> string apply_outcome" where
  "SolaceCustomActionsRule_Apply sp =
     (case sp of
        None \<Rightarrow> Some (Inr invalidSpec)
      | Some s \<Rightarrow>
          (case lookupMap s ''paths'' of
             None \<Rightarrow> Some (Inr noPaths)
           | Some paths \<Rightarrow> Some (Inr (setResults (checkActionPaths paths [])))))"

definition SolaceCustomActionsRule :: Rule where
  "SolaceCustomActionsRule =
     \<lparr>Apply = SolaceCustomActionsRule_Apply, Name = ''solace_custom_actions'',
      Description = ''Validates that custom actions follow Solace conventions''\<rparr>"

section \<open>Declarative rules\<close>

text \<open>
  Go's \<^verbatim>\<open>regexp\<close> package is not part of the program. It enters the model as the
  parameter \<open>compile\<close>: \<^verbatim>\<open>regexp.Compile\<close> either fails (\<open>None\<close>) or yields a pattern,
  of which only \<^verbatim>\<open>MatchString\<close> is used. \<^verbatim>\<open>regexp.MustCompile\<close> panics where
  \<^verbatim>\<open>regexp.Compile\<close> fails.
\<close>

type_synonym regexp = "string \<Rightarrow> bool"

type_synonym compiler = "string \<Rightarrow> regexp option"

record Condition =
  Type :: string
  Pattern :: string
  Path :: string
  Method :: string
  FieldName :: string
  Format :: string
  Value :: jv
  Message :: string

record JSONRule =
  RuleName :: string
  RuleDescription :: string
  Enabled :: bool
  Conditions :: "Condition list"
  FilePath :: string

subsection \<open>Load-time validation\<close>

datatype rule_error =
    NameRequired
  | DescriptionRequired
  | ConditionRequired
  | TypeRequired nat
  | MessageRequired nat
  | PatternRequired nat string
  | InvalidRegex nat
  | PathRequired nat string
  | MethodRequired nat
  | FieldRequired nat
  | UnknownType nat string

text \<open>One round of the loop of \<^verbatim>\<open>validate\<close>: the error it returns, if any.\<close>

definition validateCondition :: "compiler \<Rightarrow> nat \<Rightarrow> Condition \<Rightarrow> rule_error option" where
  "validateCondition compile i condition =
     (if Type condition = [] then Some (TypeRequired i)
      else if Message condition = [] then Some (MessageRequired i)
      else if Type condition = ''path_pattern'' then
        (if Pattern condition = [] then Some (PatternRequired i ''path_pattern'')
         else if compile (Pattern condition) = None then Some (InvalidRegex i)
         else None)
      else if Type condition = ''method_check'' then
        (if Path condition = [] then Some (PathRequired i ''method_check'')
         else if Method condition = [] then Some (MethodRequired i)
         else None)
      else if Type condition = ''parameter_check'' then
        (if Path condition = [] then Some (PathRequired i ''parameter_check'') else None)
      else if Type condition = ''resource_naming'' then
        (if Pattern condition = [] then Some (PatternRequired i ''resource_naming'')
         else if compile (Pattern condition) = None then Some (InvalidRegex i)
         else None)
      else if Type condition = ''schema_field'' then
        (if FieldName condition = [] then Some (FieldRequired i) else None)
      else Some (UnknownType i (Type condition)))"

fun validateConditions :: "compiler \<Rightarrow> nat \<Rightarrow> Condition list \<Rightarrow> rule_error option" where
  "validateConditions compile i [] = None"
| "validateConditions compile i (condition # rest) =
     (case validateCondition compile i condition of
        Some e \<Rightarrow> Some e
      | None \<Rightarrow> validateConditions compile (Suc i) rest)"

definition validate :: "compiler \<Rightarrow> JSONRule \<Rightarrow> rule_error option" where
  "validate compile r =
     (if RuleName r = [] then Some NameRequired
      else if RuleDescription r = [] then Some DescriptionRequired
      else if length (Conditions r) = 0 then Some ConditionRequired
      else validateConditions compile 0 (Conditions r))"

text \<open>
  \<^verbatim>\<open>NewJSONRuleFromFile\<close> after the file has been read and deserialised into \<open>rule\<close>:
  the rule is returned only if it passes \<open>validate\<close>.
\<close>

definition NewJSONRuleFromFile :: "compiler \<Rightarrow> string \<Rightarrow> JSONRule \<Rightarrow> rule_error + JSONRule" where
  "NewJSONRuleFromFile compile filePath rule =
     (let rule' = rule\<lparr>FilePath := filePath\<rparr>
      in case validate compile rule' of Some e \<Rightarrow> Inl e | None \<Rightarrow> Inr rule')"

subsection \<open>The condition interpreter\<close>

fun pathPatternLoop :: "regexp \<Rightarrow> Condition \<Rightarrow> gomap \<Rightarrow> issue list \<Rightarrow> issue list" where
  "pathPatternLoop pattern condition [] acc = acc"
| "pathPatternLoop pattern condition ((path, pathObj) # rest) acc =
     (if \<not> pattern path
      then pathPatternLoop pattern condition rest
             (acc @ [[(''path'', path), (''message'', Message condition)]])
      else pathPatternLoop pattern condition rest acc)"

text \<open>
  The loop over the segments of one path; the \<^verbatim>\<open>break\<close> after the first issue ends it.
\<close>

fun segmentLoop :: "regexp \<Rightarrow> Condition \<Rightarrow> string \<Rightarrow> string list \<Rightarrow> issue list \<Rightarrow> issue list" where
  "segmentLoop pattern condition path [] acc = acc"
| "segmentLoop pattern condition path (segment # rest) acc =
     (if segment = [] then segmentLoop pattern condition path rest acc
      else if \<not> pattern segment
      then acc @ [[(''path'', path), (''segment'', segment), (''message'', Message condition)]]
      else segmentLoop pattern condition path rest acc)"

fun resourceNamingLoop :: "regexp \<Rightarrow> Condition \<Rightarrow> gomap \<Rightarrow> issue list \<Rightarrow> issue list" where
  "resourceNamingLoop pattern condition [] acc = acc"
| "resourceNamingLoop pattern condition ((path, pathObj) # rest) acc =
     resourceNamingLoop pattern condition rest
       (segmentLoop pattern condition path (Split path CHR ''/'') acc)"

text \<open>
  The loop over the schemas: the issues and the flag \<^verbatim>\<open>fieldFound\<close> it leaves. A schema
  that is no mapping, has no \<^verbatim>\<open>properties\<close> mapping or lacks the field is passed over, and
  so is one whose field is no mapping when a format is asked for (the \<^verbatim>\<open>continue\<close>
  statements); the first other schema ends the loop (\<^verbatim>\<open>break\<close>).
\<close>

fun schemaLoop :: "Condition \<Rightarrow> gomap \<Rightarrow> issue list \<Rightarrow> issue list \<times> bool" where
  "schemaLoop condition [] acc = (acc, False)"
| "schemaLoop condition ((schemaName, schemaObj) # rest) acc =
     (case asMap schemaObj of
        None \<Rightarrow> schemaLoop condition rest acc
      | Some schema \<Rightarrow>
          (case lookupMap schema ''properties'' of
             None \<Rightarrow> schemaLoop condition rest acc
           | Some properties \<Rightarrow>
               (case map_of properties (FieldName condition) of
                  None \<Rightarrow> schemaLoop condition rest acc
                | Some fieldValue \<Rightarrow>
                    (if Format condition \<noteq> [] then
                       (case asMap fieldValue of
                          None \<Rightarrow> schemaLoop condition rest acc
                        | Some fieldObj \<Rightarrow>
                            (if lookupString fieldObj ''format'' \<noteq> Some (Format condition)
                             then (acc @ [[(''schema'', schemaName), (''field'', FieldName condition),
                                           (''message'', Message condition @ '' (format should be ''
                                                          @ Format condition @ '')'')]], True)
                             else (acc, True)))
                     else (acc, True)))))"

definition noSchemas :: "Condition \<Rightarrow> issue" where
  "noSchemas condition =
     [(''field'', FieldName condition), (''message'', ''No schema definitions found in API spec'')]"

text \<open>
  What a \<^verbatim>\<open>schema_field\<close> condition does once it has the schemas: the scan, and the
  issue for a field that no schema declares.
\<close>

definition checkSchemas :: "Condition \<Rightarrow> gomap \<Rightarrow> issue list \<Rightarrow> issue list" where
  "checkSchemas condition schemas acc =
     (case schemaLoop condition schemas acc of
        (acc', fieldFound) \<Rightarrow>
          (if \<not> fieldFound
           then acc' @ [[(''field'', FieldName condition), (''message'', Message condition)]]
           else acc'))"

text \<open>
  The body of the loop over the conditions (the \<^verbatim>\<open>switch\<close>): the issues after this
  condition, or \<open>None\<close> when \<^verbatim>\<open>regexp.MustCompile\<close> panics.
\<close>

definition applyCondition ::
  "compiler \<Rightarrow> gomap \<Rightarrow> gomap \<Rightarrow> Condition \<Rightarrow> issue list \<Rightarrow> issue list option" where
  "applyCondition compile s paths condition acc =
     (if Type condition = ''path_pattern'' then
        (case compile (Pattern condition) of
           None \<Rightarrow> None
         | Some pattern \<Rightarrow> Some (pathPatternLoop pattern condition paths acc))
      else if Type condition = ''method_check'' then
        (case lookupMap paths (Path condition) of
           None \<Rightarrow> Some acc
         | Some pathObj \<Rightarrow>
             (if map_of pathObj (ToLower (Method condition)) = None
              then Some (acc @ [[(''path'', Path condition), (''message'', Message condition)]])
              else Some acc))
      else if Type condition = ''parameter_check'' then
        (case lookupMap paths (Path condition) of
           None \<Rightarrow> Some acc
         | Some pathObj \<Rightarrow>
             (if map_of pathObj ''parameters'' = None
              then Some (acc @ [[(''path'', Path condition), (''message'', Message condition)]])
              else Some acc))
      else if Type condition = ''resource_naming'' then
        (case compile (Pattern condition) of
           None \<Rightarrow> None
         | Some pattern \<Rightarrow> Some (resourceNamingLoop pattern condition paths acc))
      else if Type condition = ''schema_field'' then
        (case lookupMap s ''components'' of
           None \<Rightarrow>
             (case lookupMap s ''definitions'' of
                None \<Rightarrow> Some (acc @ [noSchemas condition])
              | Some schemas \<Rightarrow> Some (checkSchemas condition schemas acc))
         | Some components \<Rightarrow>
             (case lookupMap components ''schemas'' of
                None \<Rightarrow> Some (acc @ [noSchemas condition])
              | Some schemas \<Rightarrow> Some (checkSchemas condition schemas acc)))
      else Some acc)"

fun applyConditions ::
  "compiler \<Rightarrow> gomap \<Rightarrow> gomap \<Rightarrow> Condition list \<Rightarrow> issue list \<Rightarrow> issue list option" where
  "applyConditions compile s paths [] acc = Some acc"
| "applyConditions compile s paths (condition # rest) acc =
     (case applyCondition compile s paths condition acc of
        None \<Rightarrow> None
      | Some acc' \<Rightarrow> applyConditions compile s paths rest acc')"

definition ruleDisabled :: result where
  "ruleDisabled = \<lparr>status = ''skipped'', message = Some ''Rule is disabled'', issues = None\<rparr>"

definition JSONRule_Apply :: "compiler \<Rightarrow> JSONRule \<Rightarrow> spec \<Rightarrow> string apply_outcome" where
  "JSONRule_Apply compile r sp =
     (if \<not> Enabled r then Some (Inr ruleDisabled)
      else (case sp of
              None \<Rightarrow> Some (Inr invalidSpec)
            | Some s \<Rightarrow>
                (case lookupMap s ''paths'' of
                   None \<Rightarrow> Some (Inr noPaths)
                 | Some paths \<Rightarrow>
                     (case applyConditions compile s paths (Conditions r) [] of
                        None \<Rightarrow> None
                      | Some acc \<Rightarrow> Some (Inr (setResults acc))))))"


section \<open>The validator\<close>

text \<open>
  The registry \<^verbatim>\<open>v.rules\<close> is a Go map from rule names to rules. Reading the
  specification (\<^verbatim>\<open>parseAPISpec\<close>: the file system and the YAML decoder) is outside the
  program and enters as the parameter \<open>parseAPISpec\<close>, which fails with a cause or yields
  the parsed specification.
\<close>

type_synonym registry = "(string \<times> Rule) list"

type_synonym parser = "string \<Rightarrow> string + spec"

datatype error =
    MissingApiSpec
  | ParsingFailed string
  | MissingUrlPath
  | UrlPathFailed error

record Report =
  results :: "string \<rightharpoonup> result"

definition registerBuiltInRules :: "registry \<Rightarrow> registry" where
  "registerBuiltInRules rs =
     AList.update ''solace_custom_actions'' SolaceCustomActionsRule
       (AList.update ''solace_singular_user_resources'' SolaceSingularUserResourcesRule
          (AList.update ''solace_rest_rules'' SolaceRestRules rs))"

text \<open>The loop that keeps the string entries of the \<^verbatim>\<open>rules\<close> parameter.\<close>

fun collectRuleNames :: "jv list \<Rightarrow> string list \<Rightarrow> string list" where
  "collectRuleNames [] acc = acc"
| "collectRuleNames (r # rest) acc =
     (case asString r of
        Some ruleName \<Rightarrow> collectRuleNames rest (acc @ [ruleName])
      | None \<Rightarrow> collectRuleNames rest acc)"

definition rulesToApply :: "registry \<Rightarrow> gomap \<Rightarrow> string list" where
  "rulesToApply rs params =
     (let chosen = (case map_of params ''rules'' of
                      Some (JArr rulesParam) \<Rightarrow> collectRuleNames rulesParam []
                    | _ \<Rightarrow> [])
      in if length chosen = 0 then chosen @ map fst rs else chosen)"

definition ruleNotFound :: "string \<Rightarrow> result" where
  "ruleNotFound ruleName =
     \<lparr>status = ''error'', message = Some (''rule not found: '' @ ruleName), issues = None\<rparr>"

definition errorApplying :: "string \<Rightarrow> result" where
  "errorApplying err =
     \<lparr>status = ''error'', message = Some (''error applying rule: '' @ err), issues = None\<rparr>"

text \<open>The loop over the selected names; a panic of a rule is a panic of the loop.\<close>

fun applyRules ::
  "registry \<Rightarrow> spec \<Rightarrow> string list \<Rightarrow> (string \<rightharpoonup> result) \<Rightarrow> (string \<rightharpoonup> result) option" where
  "applyRules rs sp [] acc = Some acc"
| "applyRules rs sp (ruleName # rest) acc =
     (case map_of rs ruleName of
        None \<Rightarrow> applyRules rs sp rest (acc(ruleName \<mapsto> ruleNotFound ruleName))
      | Some rule \<Rightarrow>
          (case Apply rule sp of
             None \<Rightarrow> None
           | Some (Inl err) \<Rightarrow> applyRules rs sp rest (acc(ruleName \<mapsto> errorApplying err))
           | Some (Inr ruleResult) \<Rightarrow> applyRules rs sp rest (acc(ruleName \<mapsto> ruleResult))))"

definition Validate :: "parser \<Rightarrow> registry \<Rightarrow> gomap \<Rightarrow> (error + Report) option" where
  "Validate parseAPISpec rs params =
     (case lookupString params ''api_spec'' of
        None \<Rightarrow> Some (Inl MissingApiSpec)
      | Some apiSpec \<Rightarrow>
          (case parseAPISpec apiSpec of
             Inl cause \<Rightarrow> Some (Inl (ParsingFailed cause))
           | Inr sp \<Rightarrow>
               (case applyRules rs sp (rulesToApply rs params) Map.empty of
                  None \<Rightarrow> None
                | Some res \<Rightarrow> Some (Inr \<lparr>results = res\<rparr>))))"

definition GetRules :: "registry \<Rightarrow> string list" where
  "GetRules rs = map fst rs"

section \<open>The URL path validator\<close>

text \<open>
  The slice expression \<^verbatim>\<open>s[lo:hi]\<close> of Go panics (\<open>None\<close>) unless
  \<open>lo \<le> hi \<le> len(s)\<close>.
\<close>

definition slice :: "string \<Rightarrow> nat \<Rightarrow> nat \<Rightarrow> string option" where
  "slice s lo hi = (if lo \<le> hi \<and> hi \<le> length s then Some (take (hi - lo) (drop lo s)) else None)"

text \<open>
  The loop of \<^verbatim>\<open>extractPathParams\<close>. The upper bound \<^verbatim>\<open>len(segment)-1\<close> is \<open>-1\<close> for
  the empty segment, where the slice expression would panic as well.
\<close>

fun extractLoop :: "string list \<Rightarrow> string list \<Rightarrow> string list option" where
  "extractLoop [] params = Some params"
| "extractLoop (segment # rest) params =
     (if HasPrefix segment ''{'' \<and> HasSuffix segment ''}'' then
        (if length segment = 0 then None
         else (case slice segment 1 (length segment - 1) of
                 None \<Rightarrow> None
               | Some paramName \<Rightarrow> extractLoop rest (params @ [paramName])))
      else extractLoop rest params)"

definition extractPathParams :: "string \<Rightarrow> string list option" where
  "extractPathParams urlPath = extractLoop (Split urlPath CHR ''/'') []"

definition endsWithResource :: "string \<Rightarrow> bool" where
  "endsWithResource urlPath =
     (let segments = Split urlPath CHR ''/''
      in if length segments = 0 then False
         else (let lastSegment = segments ! (length segments - 1)
               in HasPrefix lastSegment ''{'' \<and> HasSuffix lastSegment ''}''))"

definition determineHTTPMethods :: "bool \<Rightarrow> string list" where
  "determineHTTPMethods ewr =
     (if ewr then [''get''] @ [''put'', ''patch'', ''delete''] else [''get''] @ [''post''])"

definition nl :: string where
  "nl = [CHR 0x0A]"

fun paramsSectionLoop :: "string list \<Rightarrow> string \<Rightarrow> string" where
  "paramsSectionLoop [] paramsSection = paramsSection"
| "paramsSectionLoop (param # rest) paramsSection =
     paramsSectionLoop rest
       (paramsSection @ nl @ ''        - name: '' @ param
          @ nl @ ''          in: path''
          @ nl @ ''          required: true''
          @ nl @ ''          schema:''
          @ nl @ ''            type: string'')"

fun methodsSectionLoop :: "string \<Rightarrow> string list \<Rightarrow> string \<Rightarrow> string" where
  "methodsSectionLoop paramsSection [] methodsSection = methodsSection"
| "methodsSectionLoop paramsSection (method # rest) methodsSection =
     methodsSectionLoop paramsSection rest
       (methodsSection @ nl @ ''    '' @ method @ '':''
          @ nl @ ''      summary: '' @ ToUpper method @ '' endpoint''
          @ nl @ ''      description: Auto-generated '' @ ToUpper method @ '' endpoint for validation''
          @ nl @ ''      '' @ (if paramsSection \<noteq> [] \<and> method \<noteq> ''post''
                               then ''parameters:'' @ paramsSection else [])
          @ nl @ ''      responses:''
          @ nl @ ''        '' @ [CHR 0x27] @ ''200'' @ [CHR 0x27] @ '':''
          @ nl @ ''          description: OK'')"

definition createOpenAPISpec :: "string \<Rightarrow> string list \<Rightarrow> string list \<Rightarrow> string" where
  "createOpenAPISpec urlPath pathParams methods =
     (let paramsSection = paramsSectionLoop pathParams [];
          methodsSection = methodsSectionLoop paramsSection methods []
      in ''openapi: 3.0.0'' @ nl @ ''info:''
         @ nl @ ''  title: Auto-generated API for URL Path Validation''
         @ nl @ ''  version: 1.0.0''
         @ nl @ ''paths:''
         @ nl @ ''  '' @ urlPath @ '':'' @ methodsSection)"

text \<open>
  The report of \<^verbatim>\<open>ValidateURLPath\<close>: the entry \<^verbatim>\<open>path_analysis\<close> (whose key \<^verbatim>\<open>path\<close> is the
  field \<open>analysed_path\<close>) merged with the only entry, \<^verbatim>\<open>results\<close>, that \<open>Validate\<close> returns.
\<close>

record PathAnalysis =
  analysed_path :: string
  path_parameters :: "string list"
  ends_with_resource :: bool
  appropriate_methods :: "string list"

record URLReport = Report +
  path_analysis :: PathAnalysis

definition URLPathValidator_ValidateURLPath ::
  "parser \<Rightarrow> registry \<Rightarrow> string \<Rightarrow> (error + URLReport) option" where
  "URLPathValidator_ValidateURLPath parseAPISpec rs urlPath =
     (case extractPathParams urlPath of
        None \<Rightarrow> None
      | Some pathParams \<Rightarrow>
          (let ewr = endsWithResource urlPath;
               methods = determineHTTPMethods ewr;
               sp = createOpenAPISpec urlPath pathParams methods
           in case Validate parseAPISpec rs [(''api_spec'', JStr sp)] of
                None \<Rightarrow> None
              | Some (Inl err) \<Rightarrow> Some (Inl (UrlPathFailed err))
              | Some (Inr rep) \<Rightarrow>
                  Some (Inr \<lparr>results = results rep,
                             path_analysis = \<lparr>analysed_path = urlPath, path_parameters = pathParams,
                                               ends_with_resource = ewr,
                                               appropriate_methods = methods\<rparr>\<rparr>)))"

definition ValidateURLPath :: "parser \<Rightarrow> registry \<Rightarrow> gomap \<Rightarrow> (error + URLReport) option" where
  "ValidateURLPath parseAPISpec rs params =
     (case lookupString params ''url_path'' of
        None \<Rightarrow> Some (Inl MissingUrlPath)
      | Some urlPath \<Rightarrow> URLPathValidator_ValidateURLPath parseAPISpec rs urlPath)"

section \<open>Reference notions and example inputs\<close>

text \<open>
  A stand-in for \<^verbatim>\<open>regexp.Compile\<close> at concrete inputs: the pattern \<^verbatim>\<open>[\<close> does not
  compile, and a pattern without meta-characters matches the strings that contain it.
\<close>

definition exampleCompile :: compiler where
  "exampleCompile p = (if p = ''['' then None else Some (\<lambda>s. Contains s p))"

text \<open>A disabled rule whose only condition carries a pattern that does not compile.\<close>

definition brokenRule :: JSONRule where
  "brokenRule =
     \<lparr>RuleName = ''naming'', RuleDescription = ''Segments are lower case'', Enabled = False,
      Conditions = [\<lparr>Type = ''resource_naming'', Pattern = ''['', Path = [], Method = [],
                     FieldName = [], Format = [], Value = JNull, Message = ''bad segment''\<rparr>],
      FilePath = []\<rparr>"

text \<open>
  A segment is brace-delimited when it is \<^verbatim>\<open>{\<close>, a name and \<^verbatim>\<open>}\<close>; \<open>innerName\<close> is that name.
\<close>

definition braceDelimited :: "string \<Rightarrow> bool" where
  "braceDelimited seg = (2 \<le> length seg \<and> hd seg = CHR ''{'' \<and> last seg = CHR ''}'')"

definition innerName :: "string \<Rightarrow> string" where
  "innerName seg = butlast (tl seg)"

text \<open>A stand-in for the YAML decoder at concrete inputs: every text decodes to \<open>sp\<close>.\<close>

definition constParser :: "spec \<Rightarrow> parser" where
  "constParser sp text = Inr sp"

text \<open>The tree of the document synthesised for the path of the upgrades collection.\<close>

definition upgradesSpec :: spec where
  "upgradesSpec = Some [(''openapi'', JStr ''3.0.0''),
     (''paths'', JMap [(''/api/v0/admin/cloudAgents/{datacenterId}/upgrades'',
        JMap [(''get'', JMap [(''summary'', JStr ''GET endpoint'')]),
              (''post'', JMap [(''summary'', JStr ''POST endpoint'')])])])]"

text \<open>
  The first segment of a path that is not empty and does not match the pattern, and the
  issues a \<^verbatim>\<open>resource_naming\<close> condition should report for one path.
\<close>

definition firstViolation :: "regexp \<Rightarrow> string \<Rightarrow> string option" where
  "firstViolation pattern path = find (\<lambda>seg. seg \<noteq> [] \<and> \<not> pattern seg) (Split path CHR ''/'')"

definition namingIssues :: "regexp \<Rightarrow> Condition \<Rightarrow> string \<Rightarrow> issue list" where
  "namingIssues pattern c path =
     (case firstViolation pattern path of
        None \<Rightarrow> []
      | Some seg \<Rightarrow> [[(''path'', path), (''segment'', seg), (''message'', Message c)]])"

text \<open>A naming condition whose pattern asks for the letter s.\<close>

definition namingCondition :: Condition where
  "namingCondition = \<lparr>Type = ''resource_naming'', Pattern = ''s'', Path = [], Method = [],
     FieldName = [], Format = [], Value = JNull, Message = ''use plural nouns''\<rparr>"

text \<open>
  The order of search for the schemas as the specification words it: the mapping
  \<^verbatim>\<open>components.schemas\<close> if there is one, else the top-level mapping \<^verbatim>\<open>definitions\<close>.
\<close>

definition preferredSchemas :: "gomap \<Rightarrow> gomap option" where
  "preferredSchemas s =
     (case (case lookupMap s ''components'' of
              None \<Rightarrow> None
            | Some components \<Rightarrow> lookupMap components ''schemas'') of
        Some schemas \<Rightarrow> Some schemas
      | None \<Rightarrow> lookupMap s ''definitions'')"

text \<open>A condition asking for the field \<^verbatim>\<open>createdTime\<close> with the format \<^verbatim>\<open>date-time\<close>.\<close>

definition createdTimeCondition :: Condition where
  "createdTimeCondition = \<lparr>Type = ''schema_field'', Pattern = [], Path = [], Method = [],
     FieldName = ''createdTime'', Format = ''date-time'', Value = JNull,
     Message = ''Resources should carry createdTime''\<rparr>"

definition widgetSchemas :: gomap where
  "widgetSchemas =
     [(''Widget'', JMap [(''type'', JStr ''object''),
        (''properties'', JMap [(''createdTime'',
            JMap [(''type'', JStr ''string''), (''format'', JStr ''date-time'')])])])]"

text \<open>A document with a \<^verbatim>\<open>components\<close> mapping that has no schemas, and with \<^verbatim>\<open>definitions\<close>.\<close>

definition mixedSpec :: gomap where
  "mixedSpec =
     [(''paths'', JMap []),
      (''components'', JMap [(''securitySchemes'', JMap [])]),
      (''definitions'', JMap widgetSchemas)]"

definition pathsOnlySpec :: gomap where
  "pathsOnlySpec =
     [(''openapi'', JStr ''3.0.0''), (''paths'', JMap [(''/widgets'', JMap [(''get'', JMap [])])])]"

text \<open>
  What the loop over the selected names records for one name: the error result for a name
  that is not registered or whose rule returns an error, the rule's own result otherwise;
  \<open>None\<close> when the rule panics.
\<close>

definition recorded :: "registry \<Rightarrow> spec \<Rightarrow> string \<Rightarrow> result option" where
  "recorded rs sp ruleName =
     (case map_of rs ruleName of
        None \<Rightarrow> Some (ruleNotFound ruleName)
      | Some rule \<Rightarrow>
          (case Apply rule sp of
             None \<Rightarrow> None
           | Some (Inl err) \<Rightarrow> Some (errorApplying err)
           | Some (Inr ruleResult) \<Rightarrow> Some ruleResult))"

text \<open>A rule written against the interface whose \<^verbatim>\<open>Apply\<close> returns an error.\<close>

definition faultyRule :: Rule where
  "faultyRule = \<lparr>Apply = (\<lambda>sp. Some (Inl ''quota exceeded'')), Name = ''faulty'',
                  Description = ''Always fails''\<rparr>"

definition exampleRegistry :: registry where
  "exampleRegistry = AList.update ''faulty'' faultyRule (registerBuiltInRules [])"

definition usersSpec :: gomap where
  "usersSpec = [(''paths'', JMap [(''/users/{id}'', JMap [(''get'', JMap [])])])]"

text \<open>An enabled declarative rule that passes load-time validation, and a registry with it.\<close>

definition auditRule :: JSONRule where
  "auditRule =
     \<lparr>RuleName = ''audit_fields'', RuleDescription = ''Audit fields and plural nouns'',
      Enabled = True, Conditions = [createdTimeCondition, namingCondition],
      FilePath = ''config/rules/audit_fields.json''\<rparr>"


text \<open>
  Two results that differ at most in the order of their issues.
\<close>

definition sameUpToIssueOrder :: "result \<Rightarrow> result \<Rightarrow> bool" where
  "sameUpToIssueOrder a b \<longleftrightarrow>
     status a = status b \<and> message a = message b
     \<and> map_option mset (issues a) = map_option mset (issues b)"


















section \<open>Facts about the string functions\<close>

text \<open>
  The recursive definitions above agree with the library's notions of prefix, suffix and
  contiguous sublist, and \<open>Split\<close> is the inverse of \<open>Join\<close> whose pieces are free of
  the separator.
\<close>

lemma HasPrefix_prefix: "HasPrefix s p \<longleftrightarrow> prefix p s"
  by (induction s p rule: HasPrefix.induct) auto

lemma HasSuffix_suffix: "HasSuffix s suf \<longleftrightarrow> suffix suf s"
  by (simp add: HasSuffix_def HasPrefix_prefix suffix_to_prefix)

lemma Contains_sublist: "Contains s sub \<longleftrightarrow> sublist sub s"
proof (induction s)
  case Nil
  show ?case by simp
next
  case (Cons c cs)
  show ?case
  proof (cases sub)
    case Nil
    then show ?thesis by simp
  next
    case (Cons d ds)
    then show ?thesis
      using Cons.IH by (simp add: HasPrefix_prefix sublist_Cons_right del: HasPrefix.simps)
  qed
qed

lemma Split_not_Nil: "Split s sep \<noteq> []"
  by (induction s) (auto split: list.splits)

lemma Join_Split: "Join (Split s sep) sep = s"
proof (induction s)
  case Nil
  show ?case by simp
next
  case (Cons c cs)
  obtain t ts where ts: "Split cs sep = t # ts"
    using Split_not_Nil [of cs sep] by (cases "Split cs sep") auto
  with Cons show ?case by (cases ts) auto
qed

lemma Split_no_separator: "seg \<in> set (Split s sep) \<Longrightarrow> sep \<notin> set seg"
  by (induction s arbitrary: seg) (auto split: if_splits list.splits)

lemma length_Split: "length (Split s sep) = Suc (count_list s sep)"
  by (induction s) (auto split: list.splits simp: Split_not_Nil)

section \<open>Method-path consistency\<close>

text \<open>
  C1. The rule should flag POST exactly on paths whose last segment is a brace-delimited
  parameter, and PUT, PATCH and DELETE exactly on the other paths. The test of
  \<open>checkMethodPathConsistency\<close> is a different one: the path contains \<^verbatim>\<open>/{\<close> somewhere
  and ends with \<^verbatim>\<open>}\<close>. On the path \<^verbatim>\<open>/reports/{year}/summary.{format}\<close> the last segment
  \<^verbatim>\<open>summary.{format}\<close> is no brace-delimited parameter (\<open>endsWithResource\<close>, the test of
  the URL path validator, says so), and yet POST is flagged and PUT is accepted.
\<close>

theorem post_flagged_on_literal_last_segment:
  "\<not> endsWithResource ''/reports/{year}/summary.{format}''
   \<and> SolaceRestRules_Apply
        (Some [(''paths'', JMap [(''/reports/{year}/summary.{format}'', JMap [(''post'', JMap [])])])])
     = Some (Inr \<lparr>status = ''failed'', message = None,
                 issues = Some [[(''path'', ''/reports/{year}/summary.{format}''), (''method'', ''post''),
                   (''message'', ''POST should be used for collection paths, not for specific resources'')]]\<rparr>)
   \<and> SolaceRestRules_Apply
        (Some [(''paths'', JMap [(''/reports/{year}/summary.{format}'', JMap [(''put'', JMap [])])])])
     = Some (Inr \<lparr>status = ''passed'', message = None, issues = None\<rparr>)"
  by code_simp

section \<open>Disabled rules\<close>

text \<open>
  C6. A declarative rule whose \<open>Enabled\<close> flag is false returns the result
  \<^verbatim>\<open>skipped\<close> for every specification, the nil specification included, whatever its
  conditions are; and load-time validation does not look at the flag: \<open>validate\<close> and the
  constructor give the same verdict for either value of it.
\<close>

theorem disabled_rule_skipped:
  "\<not> Enabled r \<Longrightarrow>
     JSONRule_Apply compile r sp
       = Some (Inr \<lparr>status = ''skipped'', message = Some ''Rule is disabled'', issues = None\<rparr>)
     \<and> validate compile (r\<lparr>Enabled := b\<rparr>) = validate compile r
     \<and> NewJSONRuleFromFile compile f (r\<lparr>Enabled := b\<rparr>)
         = map_sum id (\<lambda>r'. r'\<lparr>Enabled := b\<rparr>) (NewJSONRuleFromFile compile f r)"
  by (simp add: JSONRule_Apply_def ruleDisabled_def validate_def NewJSONRuleFromFile_def Let_def
           split: option.splits)

theorem disabled_rule_skipped_witness:
  "\<not> Enabled brokenRule
   \<and> JSONRule_Apply exampleCompile brokenRule None
       = Some (Inr \<lparr>status = ''skipped'', message = Some ''Rule is disabled'', issues = None\<rparr>)
   \<and> JSONRule_Apply exampleCompile brokenRule (Some [(''openapi'', JStr ''3.0.0'')])
       = Some (Inr \<lparr>status = ''skipped'', message = Some ''Rule is disabled'', issues = None\<rparr>)
   \<and> JSONRule_Apply exampleCompile (brokenRule\<lparr>Enabled := True\<rparr>) (Some [(''paths'', JMap [])]) = None
   \<and> validate exampleCompile (brokenRule\<lparr>Enabled := True\<rparr>) = validate exampleCompile brokenRule"
proof -
  have e: "\<not> Enabled brokenRule" by (simp add: brokenRule_def)
  have p: "JSONRule_Apply exampleCompile (brokenRule\<lparr>Enabled := True\<rparr>) (Some [(''paths'', JMap [])]) = None"
    by (simp add: JSONRule_Apply_def brokenRule_def lookupMap_def applyCondition_def exampleCompile_def)
  show ?thesis
    using e p disabled_rule_skipped [OF e, of exampleCompile None True]
      disabled_rule_skipped [OF e, of exampleCompile "Some [(''openapi'', JStr ''3.0.0'')]" True]
    by simp
qed

section \<open>The analysis of a URL path\<close>

lemma braceDelimited_iff: "braceDelimited seg \<longleftrightarrow> (\<exists>name. seg = ''{'' @ name @ ''}'')"
proof
  assume b: "braceDelimited seg"
  then obtain c rest where seg: "seg = c # rest" "rest \<noteq> []"
    by (cases seg; cases "tl seg") (auto simp: braceDelimited_def)
  with b have "c = CHR ''{''" "last rest = CHR ''}''"
    by (auto simp: braceDelimited_def)
  with seg have "seg = ''{'' @ butlast rest @ ''}''"
    using append_butlast_last_id [of rest] by simp
  then show "\<exists>name. seg = ''{'' @ name @ ''}''" by blast
next
  assume "\<exists>name. seg = ''{'' @ name @ ''}''"
  then show "braceDelimited seg" by (auto simp: braceDelimited_def)
qed

lemma innerName_braces: "innerName (''{'' @ name @ ''}'') = name"
  by (simp add: innerName_def butlast_append)

lemma HasPrefix_single: "HasPrefix seg [c] \<longleftrightarrow> seg \<noteq> [] \<and> hd seg = c"
  by (cases seg) auto

lemma HasSuffix_single: "HasSuffix seg [c] \<longleftrightarrow> seg \<noteq> [] \<and> last seg = c"
  by (cases seg rule: rev_cases) (auto simp: HasSuffix_def)

lemma brace_test: "HasPrefix seg ''{'' \<and> HasSuffix seg ''}'' \<longleftrightarrow> braceDelimited seg"
proof (cases seg)
  case Nil
  then show ?thesis by (simp add: braceDelimited_def HasSuffix_def)
next
  case (Cons c rest)
  then show ?thesis
    by (cases rest) (auto simp: braceDelimited_def HasPrefix_single HasSuffix_single)
qed

text \<open>The slice expression of \<open>extractLoop\<close> never panics: the test before it rules that out.\<close>

lemma slice_inner:
  "braceDelimited seg \<Longrightarrow> slice seg (Suc 0) (length seg - Suc 0) = Some (innerName seg)"
proof -
  assume "braceDelimited seg"
  then have l: "2 \<le> length seg" by (simp add: braceDelimited_def)
  have "take (length seg - 1 - 1) (drop 1 seg) = butlast (tl seg)"
    by (simp add: butlast_conv_take drop_Suc)
  with l show ?thesis by (simp add: slice_def innerName_def)
qed

lemma extractLoop_eq:
  "extractLoop segs params = Some (params @ map innerName (filter braceDelimited segs))"
proof (induction segs arbitrary: params)
  case Nil
  show ?case by simp
next
  case (Cons seg segs)
  show ?case
  proof (cases "braceDelimited seg")
    case True
    then have n: "seg \<noteq> []" by (auto simp: braceDelimited_def)
    from True have t: "HasPrefix seg ''{''" "HasSuffix seg ''}''"
      using brace_test [of seg] by blast+
    show ?thesis
      by (simp add: t n True slice_inner [OF True] Cons.IH)
  next
    case False
    then have "\<not> (HasPrefix seg ''{'' \<and> HasSuffix seg ''}'')"
      using brace_test [of seg] by blast
    with False show ?thesis by (auto simp: Cons.IH)
  qed
qed

lemma endsWithResource_last: "endsWithResource p = braceDelimited (last (Split p CHR ''/''))"
  using Split_not_Nil [of p "CHR ''/''"] brace_test
  by (simp add: endsWithResource_def Let_def last_conv_nth)

text \<open>
  C3. For every path \<open>p\<close>, the path parameters are the inner names of the brace-delimited
  segments of \<open>p\<close> from left to right (and their extraction never panics), the path ends
  with a resource iff its last segment is brace-delimited, and the methods are get, put,
  patch, delete in that case and get, post otherwise. \<open>ValidateURLPath\<close> returns a report
  whenever validating the synthesised document does, and every report it returns carries
  exactly this analysis.
\<close>

theorem url_path_analysis:
  "extractPathParams p = Some (map innerName (filter braceDelimited (Split p CHR ''/'')))
   \<and> endsWithResource p = braceDelimited (last (Split p CHR ''/''))
   \<and> determineHTTPMethods (endsWithResource p)
       = (if braceDelimited (last (Split p CHR ''/'')) then [''get'', ''put'', ''patch'', ''delete'']
          else [''get'', ''post''])
   \<and> (Validate parseAPISpec rs
         [(''api_spec'', JStr (createOpenAPISpec p (the (extractPathParams p))
                                 (determineHTTPMethods (endsWithResource p))))] = Some (Inr r) \<longrightarrow>
        (\<exists>rep. URLPathValidator_ValidateURLPath parseAPISpec rs p = Some (Inr rep)))
   \<and> (URLPathValidator_ValidateURLPath parseAPISpec rs p = Some (Inr rep) \<longrightarrow>
        path_analysis rep =
          \<lparr>analysed_path = p,
           path_parameters = map innerName (filter braceDelimited (Split p CHR ''/'')),
           ends_with_resource = braceDelimited (last (Split p CHR ''/'')),
           appropriate_methods =
             (if braceDelimited (last (Split p CHR ''/'')) then [''get'', ''put'', ''patch'', ''delete'']
              else [''get'', ''post''])\<rparr>)"
proof -
  have a: "extractPathParams p = Some (map innerName (filter braceDelimited (Split p CHR ''/'')))"
    by (simp add: extractPathParams_def extractLoop_eq)
  have b: "endsWithResource p = braceDelimited (last (Split p CHR ''/''))"
    by (rule endsWithResource_last)
  have c: "determineHTTPMethods (endsWithResource p)
       = (if braceDelimited (last (Split p CHR ''/'')) then [''get'', ''put'', ''patch'', ''delete'']
          else [''get'', ''post''])"
    by (simp add: determineHTTPMethods_def b)
  have d: "URLPathValidator_ValidateURLPath parseAPISpec rs p = Some (Inr rep) \<longrightarrow>
        path_analysis rep =
          \<lparr>analysed_path = p,
           path_parameters = map innerName (filter braceDelimited (Split p CHR ''/'')),
           ends_with_resource = braceDelimited (last (Split p CHR ''/'')),
           appropriate_methods =
             (if braceDelimited (last (Split p CHR ''/'')) then [''get'', ''put'', ''patch'', ''delete'']
              else [''get'', ''post''])\<rparr>"
    unfolding URLPathValidator_ValidateURLPath_def a Let_def c
    by (auto simp: b split: option.splits sum.splits)
  have e: "Validate parseAPISpec rs
         [(''api_spec'', JStr (createOpenAPISpec p (the (extractPathParams p))
                                 (determineHTTPMethods (endsWithResource p))))] = Some (Inr r) \<longrightarrow>
        (\<exists>rep. URLPathValidator_ValidateURLPath parseAPISpec rs p = Some (Inr rep))"
    unfolding URLPathValidator_ValidateURLPath_def a Let_def
    by simp
  from a b c d e show ?thesis by blast
qed

theorem url_path_analysis_witness:
  "\<exists>rep. URLPathValidator_ValidateURLPath (constParser upgradesSpec) (registerBuiltInRules [])
            ''/api/v0/admin/cloudAgents/{datacenterId}/upgrades'' = Some (Inr rep)
     \<and> path_parameters (path_analysis rep) = [''datacenterId'']
     \<and> ends_with_resource (path_analysis rep) = False
     \<and> appropriate_methods (path_analysis rep) = [''get'', ''post'']"
proof -
  let ?p = "''/api/v0/admin/cloudAgents/{datacenterId}/upgrades''"
  let ?V = "URLPathValidator_ValidateURLPath (constParser upgradesSpec) (registerBuiltInRules []) ?p"
  have "map_option (map_sum id path_parameters o map_sum id path_analysis) ?V
          = Some (Inr [''datacenterId''])"
    by code_simp
  then obtain rep where rep: "?V = Some (Inr rep)"
    by (cases ?V; cases "the ?V") auto
  have s: "Split ?p CHR ''/''
             = ['''', ''api'', ''v0'', ''admin'', ''cloudAgents'', ''{datacenterId}'', ''upgrades'']"
    by simp
  have "path_analysis rep = \<lparr>analysed_path = ?p, path_parameters = [''datacenterId''],
          ends_with_resource = False, appropriate_methods = [''get'', ''post'']\<rparr>"
    using url_path_analysis [of ?p "constParser upgradesSpec" "registerBuiltInRules []" _ rep] rep
    unfolding s by (simp add: braceDelimited_def innerName_def)
  with rep show ?thesis by simp
qed

section \<open>Resource naming\<close>

lemma segmentLoop_eq:
  "segmentLoop pattern c path segs acc =
     acc @ (case find (\<lambda>seg. seg \<noteq> [] \<and> \<not> pattern seg) segs of
              None \<Rightarrow> []
            | Some seg \<Rightarrow> [[(''path'', path), (''segment'', seg), (''message'', Message c)]])"
  by (induction segs) auto

lemma resourceNamingLoop_eq:
  "resourceNamingLoop pattern c paths acc = acc @ concat (map (namingIssues pattern c) (map fst paths))"
  by (induction paths arbitrary: acc)
     (auto simp: segmentLoop_eq namingIssues_def firstViolation_def split: option.splits)

lemma namingIssues_count:
  "length (filter (\<lambda>i. map_of i ''path'' = Some p) (concat (map (namingIssues pattern c) ks)))
     \<le> count_list ks p"
  by (induction ks) (auto simp: namingIssues_def split: option.splits)

lemma distinct_count_le_1: "distinct ks \<Longrightarrow> count_list ks p \<le> 1"
  by (induction ks) (auto simp: count_list_0_iff)

text \<open>
  C5. A \<^verbatim>\<open>resource_naming\<close> condition whose pattern compiles adds, for every path of
  \<^verbatim>\<open>paths\<close> in the order of the iteration, the issues \<open>namingIssues\<close> of that path:
  none, or one issue with the path, the segment and the message. The segment reported is
  not empty, fails the pattern, and every segment before it is empty or matches, so
  later violations are not looked at. Since the keys of a Go map are distinct, no path
  has more than one issue.
\<close>

theorem resource_naming_first_violation:
  assumes "Type c = ''resource_naming''" and "compile (Pattern c) = Some pattern"
  shows "applyCondition compile s paths c acc
           = Some (acc @ concat (map (namingIssues pattern c) (map fst paths)))
         \<and> (distinct (map fst paths) \<longrightarrow>
              length (filter (\<lambda>i. map_of i ''path'' = Some p)
                        (concat (map (namingIssues pattern c) (map fst paths)))) \<le> 1)
         \<and> length (namingIssues pattern c p) \<le> 1
         \<and> (\<forall>seg. namingIssues pattern c p
                     = [[(''path'', p), (''segment'', seg), (''message'', Message c)]] \<longrightarrow>
               (\<exists>before after. Split p CHR ''/'' = before @ seg # after
                   \<and> seg \<noteq> [] \<and> \<not> pattern seg
                   \<and> (\<forall>b \<in> set before. b = [] \<or> pattern b)))"
proof -
  have a: "applyCondition compile s paths c acc
           = Some (acc @ concat (map (namingIssues pattern c) (map fst paths)))"
    using assms by (simp add: applyCondition_def resourceNamingLoop_eq)
  have b: "distinct (map fst paths) \<longrightarrow>
              length (filter (\<lambda>i. map_of i ''path'' = Some p)
                        (concat (map (namingIssues pattern c) (map fst paths)))) \<le> 1"
    using namingIssues_count [of p pattern c "map fst paths"] distinct_count_le_1 [of "map fst paths" p]
    by linarith
  have c: "length (namingIssues pattern c p) \<le> 1"
    by (simp add: namingIssues_def split: option.splits)
  have d: "\<forall>seg. namingIssues pattern c p
                     = [[(''path'', p), (''segment'', seg), (''message'', Message c)]] \<longrightarrow>
               (\<exists>before after. Split p CHR ''/'' = before @ seg # after
                   \<and> seg \<noteq> [] \<and> \<not> pattern seg
                   \<and> (\<forall>b \<in> set before. b = [] \<or> pattern b))"
  proof (intro allI impI)
    fix seg
    assume "namingIssues pattern c p = [[(''path'', p), (''segment'', seg), (''message'', Message c)]]"
    then have "find (\<lambda>seg. seg \<noteq> [] \<and> \<not> pattern seg) (Split p CHR ''/'') = Some seg"
      by (auto simp: namingIssues_def firstViolation_def split: option.splits)
    then obtain i where i: "i < length (Split p CHR ''/'')" "Split p CHR ''/'' ! i = seg"
        "seg \<noteq> [] \<and> \<not> pattern seg"
        "\<forall>j<i. \<not> (Split p CHR ''/'' ! j \<noteq> [] \<and> \<not> pattern (Split p CHR ''/'' ! j))"
      unfolding find_Some_iff by blast
    let ?xs = "Split p CHR ''/''"
    have "?xs = take i ?xs @ seg # drop (Suc i) ?xs"
      using i(1,2) id_take_nth_drop by blast
    moreover have "\<forall>b \<in> set (take i ?xs). b = [] \<or> pattern b"
    proof
      fix b assume "b \<in> set (take i ?xs)"
      then obtain j where "j < i" "j < length ?xs" "b = ?xs ! j"
        by (auto simp: in_set_conv_nth)
      with i(4) show "b = [] \<or> pattern b" by blast
    qed
    ultimately show "\<exists>before after. ?xs = before @ seg # after
                   \<and> seg \<noteq> [] \<and> \<not> pattern seg
                   \<and> (\<forall>b \<in> set before. b = [] \<or> pattern b)"
      using i(3) by blast
  qed
  from a b c d show ?thesis by blast
qed

theorem resource_naming_first_violation_witness:
  "Type namingCondition = ''resource_naming''
   \<and> exampleCompile (Pattern namingCondition) = Some (\<lambda>seg. Contains seg ''s'')
   \<and> applyCondition exampleCompile [] [(''/Order/Item/users'', JMap []), (''/users'', JNull)] namingCondition []
      = Some [[(''path'', ''/Order/Item/users''), (''segment'', ''Order''), (''message'', ''use plural nouns'')]]"
proof -
  have t: "Type namingCondition = ''resource_naming''" by (simp add: namingCondition_def)
  have e: "exampleCompile (Pattern namingCondition) = Some (\<lambda>seg. Contains seg ''s'')"
    by (simp add: namingCondition_def exampleCompile_def)
  have n: "concat (map (namingIssues (\<lambda>seg. Contains seg ''s'') namingCondition)
             (map fst [(''/Order/Item/users'', JMap []), (''/users'', JNull)]))
      = [[(''path'', ''/Order/Item/users''), (''segment'', ''Order''), (''message'', ''use plural nouns'')]]"
    by (simp add: namingIssues_def firstViolation_def namingCondition_def)
  show ?thesis
    using t e
      resource_naming_first_violation [where c = namingCondition and compile = exampleCompile
        and pattern = "\<lambda>seg. Contains seg ''s''" and s = "[]"
        and paths = "[(''/Order/Item/users'', JMap []), (''/users'', JNull)]" and acc = "[]"
        and p = "''/users''"]
    unfolding n by simp
qed

section \<open>Where a schema field condition finds the schemas\<close>

text \<open>
  The search order as worded for C2 (\<open>preferredSchemas\<close>) is not the order of the code.
  In \<open>mixedSpec\<close> the mapping \<^verbatim>\<open>components\<close> has no \<^verbatim>\<open>schemas\<close>, and the top-level
  \<^verbatim>\<open>definitions\<close> declare \<^verbatim>\<open>createdTime\<close> with the right format, so that scanning them
  gives no issue. The code does not fall back to them: once \<^verbatim>\<open>components\<close> is a mapping
  it reports that no schema definitions were found.
\<close>

theorem definitions_ignored_beside_components:
  "preferredSchemas mixedSpec = Some widgetSchemas
   \<and> checkSchemas createdTimeCondition widgetSchemas [] = []
   \<and> applyCondition exampleCompile mixedSpec [] createdTimeCondition []
       = Some [[(''field'', ''createdTime''), (''message'', ''No schema definitions found in API spec'')]]"
  by (simp add: preferredSchemas_def mixedSpec_def widgetSchemas_def lookupMap_def checkSchemas_def
        createdTimeCondition_def lookupString_def applyCondition_def noSchemas_def)

text \<open>
  C2, amended. A \<^verbatim>\<open>schema_field\<close> condition scans \<^verbatim>\<open>components.schemas\<close> when
  \<^verbatim>\<open>components\<close> is a mapping, and the top-level \<^verbatim>\<open>definitions\<close> only when \<^verbatim>\<open>components\<close>
  is absent or no mapping; in these cases the code agrees with the preferred order. When
  \<^verbatim>\<open>components\<close> is a mapping without a \<^verbatim>\<open>schemas\<close> mapping, or when neither structure
  exists, the condition adds exactly one issue, saying that no schema definitions were
  found, and nothing else. In particular a specification with neither key gets exactly
  that one issue.
\<close>

theorem schema_field_location:
  assumes "Type c = ''schema_field''"
  shows "(lookupMap s ''components'' = None
            \<or> (\<exists>components schemas. lookupMap s ''components'' = Some components
                  \<and> lookupMap components ''schemas'' = Some schemas) \<longrightarrow>
            applyCondition compile s paths c acc =
              (case preferredSchemas s of
                 None \<Rightarrow> Some (acc @ [noSchemas c])
               | Some schemas \<Rightarrow> Some (checkSchemas c schemas acc)))
       \<and> (\<forall>components. lookupMap s ''components'' = Some components
              \<and> lookupMap components ''schemas'' = None \<longrightarrow>
            applyCondition compile s paths c acc = Some (acc @ [noSchemas c]))
       \<and> (map_of s ''components'' = None \<and> map_of s ''definitions'' = None \<longrightarrow>
            applyCondition compile s paths c acc
              = Some (acc @ [[(''field'', FieldName c),
                              (''message'', ''No schema definitions found in API spec'')]]))"
  using assms
  by (auto simp: applyCondition_def preferredSchemas_def lookupMap_def noSchemas_def
           split: option.splits)

theorem schema_field_location_witness:
  "Type createdTimeCondition = ''schema_field''
   \<and> map_of pathsOnlySpec ''components'' = None \<and> map_of pathsOnlySpec ''definitions'' = None
   \<and> applyCondition exampleCompile pathsOnlySpec [(''/widgets'', JMap [(''get'', JMap [])])]
         createdTimeCondition []
       = Some [[(''field'', ''createdTime''), (''message'', ''No schema definitions found in API spec'')]]
   \<and> JSONRule_Apply exampleCompile
         \<lparr>RuleName = ''audit_fields'', RuleDescription = ''Audit fields'', Enabled = True,
          Conditions = [createdTimeCondition], FilePath = []\<rparr> (Some pathsOnlySpec)
       = Some (Inr \<lparr>status = ''failed'', message = None,
            issues = Some [[(''field'', ''createdTime''),
                            (''message'', ''No schema definitions found in API spec'')]]\<rparr>)"
proof -
  have t: "Type createdTimeCondition = ''schema_field''" by (simp add: createdTimeCondition_def)
  have m: "map_of pathsOnlySpec ''components'' = None \<and> map_of pathsOnlySpec ''definitions'' = None"
    by (simp add: pathsOnlySpec_def)
  have f: "FieldName createdTimeCondition = ''createdTime''" by (simp add: createdTimeCondition_def)
  have p: "lookupMap pathsOnlySpec ''paths'' = Some [(''/widgets'', JMap [(''get'', JMap [])])]"
    by (simp add: pathsOnlySpec_def lookupMap_def)
  have a: "applyCondition exampleCompile pathsOnlySpec [(''/widgets'', JMap [(''get'', JMap [])])]
         createdTimeCondition []
       = Some [[(''field'', ''createdTime''), (''message'', ''No schema definitions found in API spec'')]]"
    using schema_field_location [OF t, of pathsOnlySpec exampleCompile
        "[(''/widgets'', JMap [(''get'', JMap [])])]" "[]"] m f
    by simp
  show ?thesis
    using t m a by (simp add: JSONRule_Apply_def p setResults_def)
qed

section \<open>The engine\<close>

lemma applyRules_returns:
  assumes "\<forall>n \<in> set names. \<forall>rule. map_of rs n = Some rule \<longrightarrow> Apply rule sp \<noteq> None"
  shows "applyRules rs sp names acc
           = Some (\<lambda>n. if n \<in> set names then recorded rs sp n else acc n)"
  using assms
proof (induction names arbitrary: acc)
  case Nil
  show ?case by simp
next
  case (Cons n names)
  have ih: "\<And>acc. applyRules rs sp names acc
           = Some (\<lambda>n. if n \<in> set names then recorded rs sp n else acc n)"
    using Cons by simp
  show ?case
  proof (cases "map_of rs n")
    case None
    then show ?thesis
      by (auto simp: ih recorded_def fun_eq_iff)
  next
    case (Some rule)
    with Cons.prems obtain out where out: "Apply rule sp = Some out" by auto
    show ?thesis
      using Some out by (cases out) (auto simp: ih recorded_def fun_eq_iff)
  qed
qed


lemma recorded_Some:
  "\<forall>rule. map_of rs n = Some rule \<longrightarrow> Apply rule sp \<noteq> None \<Longrightarrow> recorded rs sp n \<noteq> None"
  by (auto simp: recorded_def split: option.splits sum.splits)

text \<open>
  C4. Let the specification parse. A request for the single name \<open>r\<close> that is not
  registered succeeds with the report whose only entry, under \<open>r\<close>, has the status
  \<^verbatim>\<open>error\<close>. In general, as long as no requested rule panics, the call succeeds with a
  report that has exactly the requested names as keys; a name that is not registered and
  a rule whose \<^verbatim>\<open>Apply\<close> returns an error get an error result, and every other requested
  rule gets the result of its \<^verbatim>\<open>Apply\<close>.
\<close>

theorem rule_faults_are_isolated:
  assumes "lookupString params ''api_spec'' = Some apiSpec" and "parseAPISpec apiSpec = Inr sp"
  shows "(map_of params ''rules'' = Some (JArr [JStr r]) \<and> map_of rs r = None \<longrightarrow>
            Validate parseAPISpec rs params =
              Some (Inr \<lparr>results = [r \<mapsto> \<lparr>status = ''error'',
                                          message = Some (''rule not found: '' @ r),
                                          issues = None\<rparr>]\<rparr>))
       \<and> ((\<forall>n \<in> set (rulesToApply rs params). \<forall>rule.
               map_of rs n = Some rule \<longrightarrow> Apply rule sp \<noteq> None) \<longrightarrow>
           (\<exists>rep. Validate parseAPISpec rs params = Some (Inr rep)
              \<and> dom (results rep) = set (rulesToApply rs params)
              \<and> (\<forall>n \<in> set (rulesToApply rs params).
                    results rep n =
                      (case map_of rs n of
                         None \<Rightarrow> Some \<lparr>status = ''error'',
                                       message = Some (''rule not found: '' @ n), issues = None\<rparr>
                       | Some rule \<Rightarrow>
                           (case Apply rule sp of
                              None \<Rightarrow> None
                            | Some (Inl err) \<Rightarrow>
                                Some \<lparr>status = ''error'',
                                      message = Some (''error applying rule: '' @ err),
                                      issues = None\<rparr>
                            | Some (Inr ruleResult) \<Rightarrow> Some ruleResult)))))"
proof (intro conjI impI)
  assume a: "map_of params ''rules'' = Some (JArr [JStr r]) \<and> map_of rs r = None"
  then have "rulesToApply rs params = [r]"
    by (simp add: rulesToApply_def)
  with a assms show "Validate parseAPISpec rs params =
              Some (Inr \<lparr>results = [r \<mapsto> \<lparr>status = ''error'',
                                          message = Some (''rule not found: '' @ r),
                                          issues = None\<rparr>]\<rparr>)"
    by (simp add: Validate_def ruleNotFound_def)
next
  let ?names = "rulesToApply rs params"
  assume np: "\<forall>n \<in> set ?names. \<forall>rule. map_of rs n = Some rule \<longrightarrow> Apply rule sp \<noteq> None"
  let ?res = "\<lambda>n. if n \<in> set ?names then recorded rs sp n else None"
  have run: "applyRules rs sp ?names Map.empty = Some ?res"
    using applyRules_returns [OF np, of Map.empty] by simp
  have v: "Validate parseAPISpec rs params = Some (Inr \<lparr>results = ?res\<rparr>)"
    using assms run by (simp add: Validate_def)
  have d: "dom ?res = set ?names"
    using np recorded_Some [of rs _ sp] by (auto simp: dom_def split: if_splits)
  have e: "\<forall>n \<in> set ?names. ?res n =
                      (case map_of rs n of
                         None \<Rightarrow> Some \<lparr>status = ''error'',
                                       message = Some (''rule not found: '' @ n), issues = None\<rparr>
                       | Some rule \<Rightarrow>
                           (case Apply rule sp of
                              None \<Rightarrow> None
                            | Some (Inl err) \<Rightarrow>
                                Some \<lparr>status = ''error'',
                                      message = Some (''error applying rule: '' @ err),
                                      issues = None\<rparr>
                            | Some (Inr ruleResult) \<Rightarrow> Some ruleResult))"
    by (auto simp: recorded_def ruleNotFound_def errorApplying_def split: option.splits sum.splits)
  show "\<exists>rep. Validate parseAPISpec rs params = Some (Inr rep)
              \<and> dom (results rep) = set ?names
              \<and> (\<forall>n \<in> set ?names.
                    results rep n =
                      (case map_of rs n of
                         None \<Rightarrow> Some \<lparr>status = ''error'',
                                       message = Some (''rule not found: '' @ n), issues = None\<rparr>
                       | Some rule \<Rightarrow>
                           (case Apply rule sp of
                              None \<Rightarrow> None
                            | Some (Inl err) \<Rightarrow>
                                Some \<lparr>status = ''error'',
                                      message = Some (''error applying rule: '' @ err),
                                      issues = None\<rparr>
                            | Some (Inr ruleResult) \<Rightarrow> Some ruleResult)))"
    using v d e by (intro exI [of _ "\<lparr>results = ?res\<rparr>"]) simp
qed

theorem rule_faults_are_isolated_witness:
  "\<exists>rep. Validate (constParser (Some usersSpec)) exampleRegistry
           [(''api_spec'', JStr ''openapi: 3.0.0''),
            (''rules'', JArr [JStr ''missing'', JStr ''faulty'', JStr ''solace_singular_user_resources''])]
         = Some (Inr rep)
     \<and> dom (results rep) = {''missing'', ''faulty'', ''solace_singular_user_resources''}
     \<and> results rep ''missing''
         = Some \<lparr>status = ''error'', message = Some ''rule not found: missing'', issues = None\<rparr>
     \<and> results rep ''faulty''
         = Some \<lparr>status = ''error'', message = Some ''error applying rule: quota exceeded'',
                  issues = None\<rparr>
     \<and> results rep ''solace_singular_user_resources''
         = Some \<lparr>status = ''failed'', message = None,
                  issues = Some [[(''path'', ''/users/{id}''),
                    (''message'', ''User-specific resources should use /me/ instead of /users/{id}'')]]\<rparr>"
proof -
  let ?params = "[(''api_spec'', JStr ''openapi: 3.0.0''),
            (''rules'', JArr [JStr ''missing'', JStr ''faulty'', JStr ''solace_singular_user_resources''])]"
  have names: "rulesToApply exampleRegistry ?params
                 = [''missing'', ''faulty'', ''solace_singular_user_resources'']"
    by (simp add: rulesToApply_def)
  have m1: "map_of exampleRegistry ''missing'' = None"
    and m2: "map_of exampleRegistry ''faulty'' = Some faultyRule"
    and m3: "map_of exampleRegistry ''solace_singular_user_resources''
               = Some SolaceSingularUserResourcesRule"
    by (simp_all add: exampleRegistry_def registerBuiltInRules_def)
  have a2: "Apply faultyRule (Some usersSpec) = Some (Inl ''quota exceeded'')"
    by (simp add: faultyRule_def)
  have a3: "Apply SolaceSingularUserResourcesRule (Some usersSpec)
      = Some (Inr \<lparr>status = ''failed'', message = None,
                  issues = Some [[(''path'', ''/users/{id}''),
                    (''message'', ''User-specific resources should use /me/ instead of /users/{id}'')]]\<rparr>)"
    by (simp add: SolaceSingularUserResourcesRule_def SolaceSingularUserResourcesRule_Apply_def
          usersSpec_def lookupMap_def setResults_def)
  have api: "lookupString ?params ''api_spec'' = Some ''openapi: 3.0.0''"
    by (simp add: lookupString_def)
  have parse: "constParser (Some usersSpec) ''openapi: 3.0.0'' = Inr (Some usersSpec)"
    by (simp add: constParser_def)
  have np: "\<forall>n \<in> set [''missing'', ''faulty'', ''solace_singular_user_resources'']. \<forall>rule.
              map_of exampleRegistry n = Some rule \<longrightarrow> Apply rule (Some usersSpec) \<noteq> None"
    by (simp add: m1 m2 m3 a2 a3)
  note th = rule_faults_are_isolated [where params = "[(''api_spec'', JStr ''openapi: 3.0.0''),
            (''rules'', JArr [JStr ''missing'', JStr ''faulty'', JStr ''solace_singular_user_resources''])]"
        and apiSpec = "''openapi: 3.0.0''"
        and parseAPISpec = "constParser (Some usersSpec)" and sp = "Some usersSpec"
        and rs = exampleRegistry and r = "''missing''", OF api parse, unfolded names]
  from th np obtain rep where
    v: "Validate (constParser (Some usersSpec)) exampleRegistry
           [(''api_spec'', JStr ''openapi: 3.0.0''),
            (''rules'', JArr [JStr ''missing'', JStr ''faulty'', JStr ''solace_singular_user_resources''])]
         = Some (Inr rep)"
    and d: "dom (results rep) = set [''missing'', ''faulty'', ''solace_singular_user_resources'']"
    and e: "\<forall>n \<in> set [''missing'', ''faulty'', ''solace_singular_user_resources''].
             results rep n =
               (case map_of exampleRegistry n of
                  None \<Rightarrow> Some \<lparr>status = ''error'',
                                message = Some (''rule not found: '' @ n), issues = None\<rparr>
                | Some rule \<Rightarrow>
                    (case Apply rule (Some usersSpec) of
                       None \<Rightarrow> None
                     | Some (Inl err) \<Rightarrow>
                         Some \<lparr>status = ''error'',
                               message = Some (''error applying rule: '' @ err),
                               issues = None\<rparr>
                     | Some (Inr ruleResult) \<Rightarrow> Some ruleResult))"
    by blast
  from e have "results rep ''missing''
         = Some \<lparr>status = ''error'', message = Some ''rule not found: missing'', issues = None\<rparr>"
    and "results rep ''faulty''
         = Some \<lparr>status = ''error'', message = Some ''error applying rule: quota exceeded'',
                  issues = None\<rparr>"
    and "results rep ''solace_singular_user_resources''
         = Some \<lparr>status = ''failed'', message = None,
                  issues = Some [[(''path'', ''/users/{id}''),
                    (''message'', ''User-specific resources should use /me/ instead of /users/{id}'')]]\<rparr>"
    by (simp_all add: m1 m2 m3 a2 a3)
  with v d show ?thesis by auto
qed

section \<open>The choice of the rules to run\<close>

lemma collectRuleNames_eq:
  "collectRuleNames rulesParam acc = acc @ List.map_filter asString rulesParam"
  by (induction rulesParam arbitrary: acc) (auto simp: List.map_filter_simps split: option.splits)

lemma map_filter_asString_Nil:
  "List.map_filter asString rulesParam = [] \<longleftrightarrow> (\<forall>x \<in> set rulesParam. asString x = None)"
  by (induction rulesParam) (auto simp: List.map_filter_simps split: option.splits)

lemma map_of_delete_other: "k \<noteq> k' \<Longrightarrow> map_of (AList.delete k m) k' = map_of m k'"
  by (simp add: delete_conv')

text \<open>
  C9. When the \<^verbatim>\<open>rules\<close> parameter is a list, the names selected are its string entries in
  their order, and the other entries leave no trace. When the list has no string entry,
  the selection is the list of all registered names, and the call returns what the same
  call without a \<^verbatim>\<open>rules\<close> parameter returns. So, for a specification that parses and
  rules that do not panic, the call succeeds with a report whose keys are exactly the
  string entries of the list, or exactly the registered names when the list has no string
  entry, and every key holds the result recorded for that name: the result of its rule,
  or the error result for a name that is not registered or a rule that returns an error.
\<close>

theorem non_string_rule_names_dropped:
  assumes "map_of params ''rules'' = Some (JArr rulesParam)"
  shows "rulesToApply rs params =
           (if List.map_filter asString rulesParam = [] then map fst rs
            else List.map_filter asString rulesParam)
       \<and> ((\<forall>x \<in> set rulesParam. asString x = None) \<longrightarrow>
            rulesToApply rs params = GetRules rs
            \<and> Validate parseAPISpec rs params
                = Validate parseAPISpec rs (AList.delete ''rules'' params))
       \<and> (lookupString params ''api_spec'' = Some apiSpec \<and> parseAPISpec apiSpec = Inr sp
            \<and> (\<forall>n \<in> set (rulesToApply rs params). \<forall>rule.
                   map_of rs n = Some rule \<longrightarrow> Apply rule sp \<noteq> None) \<longrightarrow>
           (\<exists>rep. Validate parseAPISpec rs params = Some (Inr rep)
              \<and> dom (results rep) =
                    (if \<forall>x \<in> set rulesParam. asString x = None then fst ` set rs
                     else {ruleName. JStr ruleName \<in> set rulesParam})
              \<and> (\<forall>n \<in> dom (results rep).
                    results rep n =
                      (case map_of rs n of
                         None \<Rightarrow> Some \<lparr>status = ''error'',
                                       message = Some (''rule not found: '' @ n), issues = None\<rparr>
                       | Some rule \<Rightarrow>
                           (case Apply rule sp of
                              None \<Rightarrow> None
                            | Some (Inl err) \<Rightarrow>
                                Some \<lparr>status = ''error'',
                                      message = Some (''error applying rule: '' @ err),
                                      issues = None\<rparr>
                            | Some (Inr ruleResult) \<Rightarrow> Some ruleResult)))))"
proof -
  have sel: "rulesToApply rs params =
           (if List.map_filter asString rulesParam = [] then map fst rs
            else List.map_filter asString rulesParam)"
    using assms by (simp add: rulesToApply_def collectRuleNames_eq)
  have none: "rulesToApply rs (AList.delete ''rules'' params) = map fst rs"
    by (simp add: rulesToApply_def delete_conv')
  have api: "lookupString (AList.delete ''rules'' params) ''api_spec'' = lookupString params ''api_spec''"
    by (simp add: lookupString_def map_of_delete_other)
  have all: "(\<forall>x \<in> set rulesParam. asString x = None) \<longrightarrow>
            rulesToApply rs params = GetRules rs
            \<and> Validate parseAPISpec rs params
                = Validate parseAPISpec rs (AList.delete ''rules'' params)"
  proof
    assume "\<forall>x \<in> set rulesParam. asString x = None"
    then have "rulesToApply rs params = map fst rs"
      using sel map_filter_asString_Nil [of rulesParam] by simp
    then show "rulesToApply rs params = GetRules rs
            \<and> Validate parseAPISpec rs params
                = Validate parseAPISpec rs (AList.delete ''rules'' params)"
      by (simp add: Validate_def none api GetRules_def
            cong del: option.case_cong_weak sum.case_cong_weak)
  qed
  have names: "set (rulesToApply rs params) =
                 (if \<forall>x \<in> set rulesParam. asString x = None then fst ` set rs
                  else {ruleName. JStr ruleName \<in> set rulesParam})"
  proof -
    have "set (List.map_filter asString rulesParam) = {ruleName. JStr ruleName \<in> set rulesParam}"
    proof (induction rulesParam)
      case Nil
      show ?case by (simp add: List.map_filter_simps)
    next
      case (Cons x xs)
      then show ?case by (cases x) (auto simp: List.map_filter_simps)
    qed
    with sel show ?thesis using map_filter_asString_Nil [of rulesParam] by auto
  qed
  have rep: "\<exists>rep. Validate parseAPISpec rs params = Some (Inr rep)
              \<and> dom (results rep) =
                    (if \<forall>x \<in> set rulesParam. asString x = None then fst ` set rs
                     else {ruleName. JStr ruleName \<in> set rulesParam})
              \<and> (\<forall>n \<in> dom (results rep).
                    results rep n =
                      (case map_of rs n of
                         None \<Rightarrow> Some \<lparr>status = ''error'',
                                       message = Some (''rule not found: '' @ n), issues = None\<rparr>
                       | Some rule \<Rightarrow>
                           (case Apply rule sp of
                              None \<Rightarrow> None
                            | Some (Inl err) \<Rightarrow>
                                Some \<lparr>status = ''error'',
                                      message = Some (''error applying rule: '' @ err),
                                      issues = None\<rparr>
                            | Some (Inr ruleResult) \<Rightarrow> Some ruleResult)))"
    if a: "lookupString params ''api_spec'' = Some apiSpec" and p: "parseAPISpec apiSpec = Inr sp"
      and np: "\<forall>n \<in> set (rulesToApply rs params). \<forall>rule.
                   map_of rs n = Some rule \<longrightarrow> Apply rule sp \<noteq> None"
  proof -
    let ?names = "rulesToApply rs params"
    let ?res = "\<lambda>n. if n \<in> set ?names then recorded rs sp n else None"
    have v: "Validate parseAPISpec rs params = Some (Inr \<lparr>results = ?res\<rparr>)"
      using a p applyRules_returns [OF np, of Map.empty] by (simp add: Validate_def)
    have d: "dom ?res = set ?names"
      using np recorded_Some [of rs _ sp] by (auto simp: dom_def split: if_splits)
    have e: "\<forall>n \<in> dom ?res. ?res n =
                      (case map_of rs n of
                         None \<Rightarrow> Some \<lparr>status = ''error'',
                                       message = Some (''rule not found: '' @ n), issues = None\<rparr>
                       | Some rule \<Rightarrow>
                           (case Apply rule sp of
                              None \<Rightarrow> None
                            | Some (Inl err) \<Rightarrow>
                                Some \<lparr>status = ''error'',
                                      message = Some (''error applying rule: '' @ err),
                                      issues = None\<rparr>
                            | Some (Inr ruleResult) \<Rightarrow> Some ruleResult))"
      unfolding d
      by (auto simp: recorded_def ruleNotFound_def errorApplying_def split: option.splits sum.splits)
    show ?thesis
      using v d e names by (intro exI [of _ "\<lparr>results = ?res\<rparr>"]) simp
  qed
  from sel all rep show ?thesis by blast
qed

theorem non_string_rule_names_dropped_witness:
  "map_of [(''api_spec'', JStr ''openapi: 3.0.0''), (''rules'', JArr [JInt 7, JNull, JBool True])] ''rules''
     = Some (JArr [JInt 7, JNull, JBool True])
   \<and> rulesToApply (registerBuiltInRules [])
         [(''api_spec'', JStr ''openapi: 3.0.0''), (''rules'', JArr [JInt 7, JNull, JBool True])]
       = [''solace_rest_rules'', ''solace_singular_user_resources'', ''solace_custom_actions'']
   \<and> Validate (constParser (Some usersSpec)) (registerBuiltInRules [])
         [(''api_spec'', JStr ''openapi: 3.0.0''), (''rules'', JArr [JInt 7, JNull, JBool True])]
       = Validate (constParser (Some usersSpec)) (registerBuiltInRules [])
           [(''api_spec'', JStr ''openapi: 3.0.0'')]
   \<and> (\<exists>rep. Validate (constParser (Some usersSpec)) (registerBuiltInRules [])
           [(''api_spec'', JStr ''openapi: 3.0.0''), (''rules'', JArr [JInt 7, JNull, JBool True])]
         = Some (Inr rep)
       \<and> dom (results rep)
           = {''solace_rest_rules'', ''solace_singular_user_resources'', ''solace_custom_actions''}
       \<and> results rep ''solace_rest_rules''
           = Some \<lparr>status = ''passed'', message = None, issues = None\<rparr>
       \<and> results rep ''solace_singular_user_resources''
           = Some \<lparr>status = ''failed'', message = None,
                    issues = Some [[(''path'', ''/users/{id}''),
                      (''message'', ''User-specific resources should use /me/ instead of /users/{id}'')]]\<rparr>
       \<and> results rep ''solace_custom_actions''
           = Some \<lparr>status = ''passed'', message = None, issues = None\<rparr>)"
proof -
  let ?params = "[(''api_spec'', JStr ''openapi: 3.0.0''), (''rules'', JArr [JInt 7, JNull, JBool True])]"
  let ?rs = "registerBuiltInRules []"
  have m: "map_of ?params ''rules'' = Some (JArr [JInt 7, JNull, JBool True])"
    by simp
  have n: "\<forall>x \<in> set [JInt 7, JNull, JBool True]. asString x = None" by simp
  have d: "AList.delete ''rules'' ?params = [(''api_spec'', JStr ''openapi: 3.0.0'')]"
    by (simp add: AList.delete_eq)
  have g: "GetRules ?rs
             = [''solace_rest_rules'', ''solace_singular_user_resources'', ''solace_custom_actions'']"
    by (simp add: GetRules_def registerBuiltInRules_def)
  have reg: "?rs = [(''solace_rest_rules'', SolaceRestRules),
       (''solace_singular_user_resources'', SolaceSingularUserResourcesRule),
       (''solace_custom_actions'', SolaceCustomActionsRule)]"
    by (simp add: registerBuiltInRules_def)
  have a1: "Apply SolaceRestRules (Some usersSpec)
              = Some (Inr \<lparr>status = ''passed'', message = None, issues = None\<rparr>)"
    by (simp add: SolaceRestRules_def SolaceRestRules_Apply_def usersSpec_def lookupMap_def
          checkMethodPathConsistency_def ToLower_def lowerChar_def setResults_def)
  have a2: "Apply SolaceSingularUserResourcesRule (Some usersSpec)
      = Some (Inr \<lparr>status = ''failed'', message = None,
                  issues = Some [[(''path'', ''/users/{id}''),
                    (''message'', ''User-specific resources should use /me/ instead of /users/{id}'')]]\<rparr>)"
    by (simp add: SolaceSingularUserResourcesRule_def SolaceSingularUserResourcesRule_Apply_def
          usersSpec_def lookupMap_def setResults_def)
  have a3: "Apply SolaceCustomActionsRule (Some usersSpec)
              = Some (Inr \<lparr>status = ''passed'', message = None, issues = None\<rparr>)"
    by (simp add: SolaceCustomActionsRule_def SolaceCustomActionsRule_Apply_def usersSpec_def
          lookupMap_def setResults_def)
  have api: "lookupString ?params ''api_spec'' = Some ''openapi: 3.0.0''"
    by (simp add: lookupString_def)
  have parse: "constParser (Some usersSpec) ''openapi: 3.0.0'' = Inr (Some usersSpec)"
    by (simp add: constParser_def)
  note th = non_string_rule_names_dropped [OF m, where rs = ?rs
      and parseAPISpec = "constParser (Some usersSpec)" and apiSpec = "''openapi: 3.0.0''"
      and sp = "Some usersSpec"]
  from th n have sel: "rulesToApply ?rs ?params = GetRules ?rs"
    and eq: "Validate (constParser (Some usersSpec)) ?rs ?params
       = Validate (constParser (Some usersSpec)) ?rs (AList.delete ''rules'' ?params)"
    by blast+
  have np: "\<forall>n \<in> set (rulesToApply ?rs ?params). \<forall>rule.
              map_of ?rs n = Some rule \<longrightarrow> Apply rule (Some usersSpec) \<noteq> None"
    unfolding sel g unfolding reg by (simp add: a1 a2 a3)
  from th api parse np
  have "\<exists>rep. Validate (constParser (Some usersSpec)) ?rs ?params = Some (Inr rep)
          \<and> dom (results rep) =
                (if \<forall>x \<in> set [JInt 7, JNull, JBool True]. asString x = None then fst ` set ?rs
                 else {ruleName. JStr ruleName \<in> set [JInt 7, JNull, JBool True]})
          \<and> (\<forall>n \<in> dom (results rep). results rep n =
               (case map_of ?rs n of
                  None \<Rightarrow> Some \<lparr>status = ''error'',
                                message = Some (''rule not found: '' @ n), issues = None\<rparr>
                | Some rule \<Rightarrow>
                    (case Apply rule (Some usersSpec) of
                       None \<Rightarrow> None
                     | Some (Inl err) \<Rightarrow>
                         Some \<lparr>status = ''error'',
                               message = Some (''error applying rule: '' @ err),
                               issues = None\<rparr>
                     | Some (Inr ruleResult) \<Rightarrow> Some ruleResult)))"
    by blast
  then obtain rep where
    v: "Validate (constParser (Some usersSpec)) ?rs ?params = Some (Inr rep)"
    and dm0: "dom (results rep) =
                (if \<forall>x \<in> set [JInt 7, JNull, JBool True]. asString x = None then fst ` set ?rs
                 else {ruleName. JStr ruleName \<in> set [JInt 7, JNull, JBool True]})"
    and e: "\<forall>n \<in> dom (results rep). results rep n =
               (case map_of ?rs n of
                  None \<Rightarrow> Some \<lparr>status = ''error'',
                                message = Some (''rule not found: '' @ n), issues = None\<rparr>
                | Some rule \<Rightarrow>
                    (case Apply rule (Some usersSpec) of
                       None \<Rightarrow> None
                     | Some (Inl err) \<Rightarrow>
                         Some \<lparr>status = ''error'',
                               message = Some (''error applying rule: '' @ err),
                               issues = None\<rparr>
                     | Some (Inr ruleResult) \<Rightarrow> Some ruleResult))"
    by blast
  from dm0 n have dm: "dom (results rep) = fst ` set ?rs" by (simp only: if_P)
  have dm': "dom (results rep)
      = {''solace_rest_rules'', ''solace_singular_user_resources'', ''solace_custom_actions''}"
    unfolding dm reg by simp
  from e [unfolded dm'] have r1: "results rep ''solace_rest_rules''
           = Some \<lparr>status = ''passed'', message = None, issues = None\<rparr>"
    and r2: "results rep ''solace_singular_user_resources''
           = Some \<lparr>status = ''failed'', message = None,
                    issues = Some [[(''path'', ''/users/{id}''),
                      (''message'', ''User-specific resources should use /me/ instead of /users/{id}'')]]\<rparr>"
    and r3: "results rep ''solace_custom_actions''
           = Some \<lparr>status = ''passed'', message = None, issues = None\<rparr>"
    unfolding reg by (simp_all add: a1 a2 a3)
  from m sel eq v dm' r1 r2 r3 show ?thesis unfolding d g by blast
qed

section \<open>No rule returns an error\<close>










section \<open>The order of the conditions\<close>

text \<open>Every loop of the interpreter only appends to the issues it is given.\<close>

lemma pathPatternLoop_append:
  "pathPatternLoop pattern c paths acc = acc @ pathPatternLoop pattern c paths []"
proof (induction paths arbitrary: acc)
  case Nil
  show ?case by simp
next
  case (Cons e paths)
  obtain path pathObj where e: "e = (path, pathObj)" by (cases e)
  show ?case
    using Cons.IH [of "acc @ [[(''path'', path), (''message'', Message c)]]"]
      Cons.IH [of "[[(''path'', path), (''message'', Message c)]]"] Cons.IH [of acc]
    by (simp add: e)
qed

lemma schemaLoop_append:
  "schemaLoop c schemas acc = (acc @ fst (schemaLoop c schemas []), snd (schemaLoop c schemas []))"
proof (induction schemas)
  case Nil
  show ?case by simp
next
  case (Cons e schemas)
  obtain schemaName schemaObj where e: "e = (schemaName, schemaObj)" by (cases e)
  show ?case
    using Cons.IH by (simp add: e split: option.splits)
qed

lemma checkSchemas_append: "checkSchemas c schemas acc = acc @ checkSchemas c schemas []"
  using schemaLoop_append [of c schemas acc]
  by (simp add: checkSchemas_def split: prod.splits)

lemma applyCondition_append:
  "applyCondition compile s paths c acc
     = map_option ((@) acc) (applyCondition compile s paths c [])"
  using pathPatternLoop_append [of _ c paths acc] checkSchemas_append [of c _ acc]
  by (auto simp: applyCondition_def resourceNamingLoop_eq split: option.splits)

lemma applyConditions_eq:
  "applyConditions compile s paths cs acc =
     (if \<forall>c \<in> set cs. applyCondition compile s paths c [] \<noteq> None
      then Some (acc @ concat (map (\<lambda>c. the (applyCondition compile s paths c [])) cs))
      else None)"
proof (induction cs arbitrary: acc)
  case Nil
  show ?case by simp
next
  case (Cons c cs)
  show ?case
  proof (cases "applyCondition compile s paths c []")
    case None
    then show ?thesis using applyCondition_append [of compile s paths c acc] by simp
  next
    case (Some new)
    then have "applyCondition compile s paths c acc = Some (acc @ new)"
      using applyCondition_append [of compile s paths c acc] by simp
    with Some show ?thesis using Cons.IH [of "acc @ new"] by simp
  qed
qed

lemma applyConditions_mset:
  assumes "mset cs = mset cs'"
  shows "map_option mset (applyConditions compile s paths cs [])
           = map_option mset (applyConditions compile s paths cs' [])"
proof -
  let ?f = "\<lambda>c. the (applyCondition compile s paths c [])"
  have "set cs = set cs'" using assms by (rule mset_eq_setD)
  moreover have "mset (concat (map ?f cs)) = mset (concat (map ?f cs'))"
  proof -
    have "mset (concat (map ?f xs)) = (\<Sum>c \<in># mset xs. mset (?f c))" for xs
      by (induction xs) simp_all
    with assms show ?thesis by simp
  qed
  ultimately show ?thesis by (simp add: applyConditions_eq)
qed

lemma setResults_mset:
  "mset acc = mset acc' \<Longrightarrow> sameUpToIssueOrder (setResults acc) (setResults acc')"
proof -
  assume m: "mset acc = mset acc'"
  then have "length acc = length acc'" by (rule mset_eq_length)
  with m show ?thesis by (simp add: sameUpToIssueOrder_def setResults_def)
qed

text \<open>
  C7. Take a declarative rule and two lists of conditions that are permutations of each
  other, and any specification whose mappings are iterated in the same order in both
  runs. Then \<^verbatim>\<open>Apply\<close> panics with both lists or with neither; and when it returns, the two
  results have the same status and the same issues up to their order. In particular one
  run yields \<^verbatim>\<open>failed\<close> iff the other does.
\<close>

theorem condition_order_keeps_status:
  assumes "mset cs = mset cs'"
  shows "(JSONRule_Apply compile (r\<lparr>Conditions := cs\<rparr>) sp = None
            \<longleftrightarrow> JSONRule_Apply compile (r\<lparr>Conditions := cs'\<rparr>) sp = None)
       \<and> (\<forall>res. JSONRule_Apply compile (r\<lparr>Conditions := cs\<rparr>) sp = Some (Inr res) \<longrightarrow>
             (\<exists>res'. JSONRule_Apply compile (r\<lparr>Conditions := cs'\<rparr>) sp = Some (Inr res')
                \<and> sameUpToIssueOrder res res'
                \<and> (status res = ''failed'' \<longleftrightarrow> status res' = ''failed'')))"
proof (cases "Enabled r")
  case False
  then show ?thesis by (simp add: JSONRule_Apply_def sameUpToIssueOrder_def)
next
  case en: True
  show ?thesis
  proof (cases sp)
    case None
    with en show ?thesis by (simp add: JSONRule_Apply_def sameUpToIssueOrder_def)
  next
    case (Some s)
    show ?thesis
    proof (cases "lookupMap s ''paths''")
      case None
      with en Some show ?thesis by (simp add: JSONRule_Apply_def sameUpToIssueOrder_def)
    next
      case paths: (Some paths)
      note m = applyConditions_mset [OF assms, of compile s paths]
      show ?thesis
      proof (cases "applyConditions compile s paths cs []")
        case None
        with m have "applyConditions compile s paths cs' [] = None" by simp
        with None en Some paths show ?thesis by (simp add: JSONRule_Apply_def)
      next
        case acc: (Some acc)
        with m obtain acc' where acc': "applyConditions compile s paths cs' [] = Some acc'"
          and eq: "mset acc = mset acc'"
          by (cases "applyConditions compile s paths cs' []") auto
        have "sameUpToIssueOrder (setResults acc) (setResults acc')"
          using eq by (rule setResults_mset)
        moreover from this have "status (setResults acc) = ''failed''
            \<longleftrightarrow> status (setResults acc') = ''failed''"
          by (simp add: sameUpToIssueOrder_def)
        ultimately show ?thesis
          using en Some paths acc acc' by (simp add: JSONRule_Apply_def)
      qed
    qed
  qed
qed

theorem condition_order_keeps_status_witness:
  "mset [createdTimeCondition, namingCondition] = mset [namingCondition, createdTimeCondition]
   \<and> JSONRule_Apply exampleCompile auditRule (Some usersSpec)
       = Some (Inr \<lparr>status = ''failed'', message = None,
                 issues = Some [[(''field'', ''createdTime''),
                                 (''message'', ''No schema definitions found in API spec'')],
                                [(''path'', ''/users/{id}''), (''segment'', ''{id}''),
                                 (''message'', ''use plural nouns'')]]\<rparr>)
   \<and> (\<exists>res'. JSONRule_Apply exampleCompile
                 (auditRule\<lparr>Conditions := [namingCondition, createdTimeCondition]\<rparr>) (Some usersSpec)
               = Some (Inr res') \<and> status res' = ''failed'')"
proof -
  have m: "mset [createdTimeCondition, namingCondition] = mset [namingCondition, createdTimeCondition]"
    by (simp add: add.commute)
  have c: "auditRule\<lparr>Conditions := [createdTimeCondition, namingCondition]\<rparr> = auditRule"
    by (simp add: auditRule_def)
  have a: "JSONRule_Apply exampleCompile auditRule (Some usersSpec)
       = Some (Inr \<lparr>status = ''failed'', message = None,
                 issues = Some [[(''field'', ''createdTime''),
                                 (''message'', ''No schema definitions found in API spec'')],
                                [(''path'', ''/users/{id}''), (''segment'', ''{id}''),
                                 (''message'', ''use plural nouns'')]]\<rparr>)"
    by (simp add: JSONRule_Apply_def auditRule_def usersSpec_def lookupMap_def
          applyCondition_def createdTimeCondition_def namingCondition_def exampleCompile_def
          noSchemas_def setResults_def)
  from condition_order_keeps_status [OF m, of exampleCompile auditRule "Some usersSpec"] a
  have "\<exists>res'. JSONRule_Apply exampleCompile
                 (auditRule\<lparr>Conditions := [namingCondition, createdTimeCondition]\<rparr>) (Some usersSpec)
               = Some (Inr res') \<and> status res' = ''failed''"
    unfolding c by auto
  with m a show ?thesis by blast
qed

section \<open>The order in which mappings are iterated\<close>













subsection \<open>The structural rules\<close>












subsection \<open>The scan of the schemas\<close>














subsection \<open>The conditions\<close>








subsection \<open>The report\<close>








section \<open>The method-path rule beyond the failing path\<close>

lemma ToLower_methods:
  "ToLower ''get'' = ''get''" "ToLower ''post'' = ''post''" "ToLower ''put'' = ''put''"
  "ToLower ''patch'' = ''patch''" "ToLower ''delete'' = ''delete''"
  by (simp_all add: ToLower_def lowerChar_def)

text \<open>What the rule tests in place of the last segment, for the five lower-case method keys.\<close>

lemma checkMethodPathConsistency_cases:
  "checkMethodPathConsistency path ''get'' d = None"
  "checkMethodPathConsistency path ''post'' d \<noteq> None
     \<longleftrightarrow> Contains path ''/{'' \<and> HasSuffix path ''}''"
  "m \<in> {''put'', ''patch'', ''delete''} \<Longrightarrow>
     checkMethodPathConsistency path m d \<noteq> None
       \<longleftrightarrow> \<not> (Contains path ''/{'' \<and> HasSuffix path ''}'')"
  by (auto simp: checkMethodPathConsistency_def ToLower_methods Let_def)

text \<open>
  On a path that starts with a slash and whose last segment is a brace-delimited
  parameter, the test of the rule and the test of the last segment agree.
\<close>

lemma Join_snoc: "xs \<noteq> [] \<Longrightarrow> Join (xs @ [s]) sep = Join xs sep @ sep # s"
  by (induction xs sep rule: Join.induct) auto

lemma brace_last_segment_contains:
  assumes "braceDelimited (last (Split path CHR ''/''))" and "HasPrefix path ''/''"
  shows "Contains path ''/{'' \<and> HasSuffix path ''}''"
proof -
  let ?S = "Split path CHR ''/''"
  from assms(1) obtain name where seg: "last ?S = ''{'' @ name @ ''}''"
    using braceDelimited_iff by blast
  have S: "?S = butlast ?S @ [last ?S]"
    using Split_not_Nil [of path "CHR ''/''"] by simp
  have "butlast ?S \<noteq> []"
  proof
    assume "butlast ?S = []"
    with S have "?S = [last ?S]" by simp
    then have "path = last ?S" using Join_Split [of path "CHR ''/''"] by (metis Join.simps(2))
    with seg assms(2) show False by simp
  qed
  then have "Join ?S CHR ''/'' = Join (butlast ?S) CHR ''/'' @ CHR ''/'' # last ?S"
    using Join_snoc [of "butlast ?S" "last ?S" "CHR ''/''"] S by simp
  then have path: "path = Join (butlast ?S) CHR ''/'' @ ''/{'' @ name @ ''}''"
    using seg by (simp add: Join_Split)
  have "sublist ''/{'' path"
    unfolding sublist_def using path by (metis append.assoc)
  moreover have "suffix ''}'' path"
    unfolding suffix_def using path by (metis append.assoc)
  ultimately show ?thesis by (simp add: Contains_sublist HasSuffix_suffix)
qed

text \<open>The two scenarios of the method-path rule.\<close>

lemma widgets_scenarios:
  "SolaceRestRules_Apply
     (Some [(''paths'', JMap [(''/widgets'', JMap [(''post'', JMap [])]),
                              (''/widgets/{id}'', JMap [(''get'', JMap []), (''put'', JMap [])])])])
     = Some (Inr \<lparr>status = ''passed'', message = None, issues = None\<rparr>)"
  "SolaceRestRules_Apply
     (Some [(''paths'', JMap [(''/widgets/{id}'', JMap [(''post'', JMap [])])])])
     = Some (Inr \<lparr>status = ''failed'', message = None,
          issues = Some [[(''path'', ''/widgets/{id}''), (''method'', ''post''),
            (''message'', ''POST should be used for collection paths, not for specific resources'')]]\<rparr>)"
  by code_simp+

end
